theory Spec2Isabelle
  imports Complex_Main
begin

section \<open>Data model of the Snake game\<close>

text \<open>
  The model follows the class \<open>SnakeGame\<close>. A \<open>Point\<close> holds grid coordinates; the
  game only ever stores integers there, so both fields are \<open>int\<close>. JavaScript numbers
  are doubles: scores, speeds and coordinates are integers far below \<open>2^53\<close>, where
  double arithmetic is exact. The quotient \<open>canvas.width / gridSize\<close> is kept as the
  exact rational: the wall tests only compare it with integers, which the rounding of
  the quotient cannot change. The one computation on doubles that are not integers,
  \<open>Math.floor(Math.random() * factor)\<close>, is not recomputed by the model at all: its
  value is part of what the browser supplies (see \<open>randomFloor\<close> below).
\<close>

datatype point = Point (px: int) (py: int)

text \<open>The four strings \<open>'up'\<close>, \<open>'down'\<close>, \<open>'left'\<close>, \<open>'right'\<close> held by
  \<open>direction\<close> and \<open>nextDirection\<close>.\<close>

datatype direction = Up | Down | Left | Right

record GameConfig =
  gridSize :: int
  initialSpeed :: int
  minSpeed :: int
  speedDecrement :: int

definition CONFIG :: GameConfig where
  "CONFIG = \<lparr>gridSize = 20, initialSpeed = 200, minSpeed = 50, speedDecrement = 5\<rparr>"

text \<open>The canvas element: only its pixel extent is read (both are unsigned).\<close>

record canvas_element =
  width :: nat
  height :: nat

text \<open>
  The fields of \<open>SnakeGame\<close>, followed by the parts of the browser the methods act on:
  the \<open>localStorage\<close> map, the pending timers of \<open>setTimeout\<close> (handle and delay, in
  the order they were armed), the next timer handle, the random numbers, and the
  messages shown by \<open>alert\<close>. Drawing and the two score displays only write to the
  page and are left out.

  Random numbers: \<open>drawn\<close> counts the calls of \<open>Math.random()\<close> made so far, and
  \<open>randomFloor w n f\<close> is the value that \<open>Math.floor(Math.random() * f)\<close> has when
  this call of \<open>Math.random()\<close> is call number \<open>n\<close> (counting from 0) and the factor
  is \<open>f\<close>. The product is a product of doubles; taking the rounded and floored value
  from the browser, for every factor, keeps the model free of any arithmetic of its
  own on it. The factor is named by the exact quotient of pixels and cell size, of
  which the double the code multiplies with is the rounding. Nothing is assumed of
  these values.
\<close>

record SnakeGame =
  canvas :: canvas_element
  snake :: "point list"
  apple :: point
  direction :: direction
  nextDirection :: direction
  score :: int
  highScore :: int
  speed :: int
  gameLoopTimeout :: "nat option"
  isPaused :: bool
  localStorage :: "string \<rightharpoonup> string"
  timers :: "(nat \<times> int) list"
  nextHandle :: nat
  randomFloor :: "nat \<Rightarrow> rat \<Rightarrow> int"
  drawn :: nat
  alerts :: "string list"

section \<open>Browser primitives\<close>

text \<open>\<open>setTimeout\<close> arms a new timer and returns its handle.\<close>

definition setTimeout :: "int \<Rightarrow> SnakeGame \<Rightarrow> nat \<times> SnakeGame" where
  "setTimeout delay w =
     (nextHandle w,
      w\<lparr>timers := timers w @ [(nextHandle w, delay)], nextHandle := nextHandle w + 1\<rparr>)"

text \<open>\<open>clearTimeout\<close> removes the timer with that handle, if it is still
  pending.\<close>

definition clearTimeout :: "nat \<Rightarrow> SnakeGame \<Rightarrow> SnakeGame" where
  "clearTimeout h w = w\<lparr>timers := filter (\<lambda>t. fst t \<noteq> h) (timers w)\<rparr>"

text \<open>Decimal text of an integer, as \<open>Number.prototype.toString\<close> and template
  strings print it.\<close>

definition digitChar :: "nat \<Rightarrow> char" where
  "digitChar n = ''0123456789'' ! n"

fun digits :: "nat \<Rightarrow> string" where
  "digits n =
     (if n < 10 then [digitChar n] else digits (n div 10) @ [digitChar (n mod 10)])"

declare digits.simps [simp del]

definition toString :: "int \<Rightarrow> string" where
  "toString i = (if i < 0 then CHR ''-'' # digits (nat (- i)) else digits (nat i))"

definition alert :: "string \<Rightarrow> SnakeGame \<Rightarrow> SnakeGame" where
  "alert msg w = w\<lparr>alerts := alerts w @ [msg]\<rparr>"

section \<open>The methods of \<open>SnakeGame\<close>\<close>

text \<open>The \<open>keydown\<close> listener installed by \<open>initInput\<close>; the
  argument is \<open>e.key\<close>.\<close>

definition keydown :: "string \<Rightarrow> SnakeGame \<Rightarrow> SnakeGame" where
  "keydown key w =
     (if key = ''ArrowUp'' then
        (if direction w \<noteq> Down then w\<lparr>nextDirection := Up\<rparr> else w)
      else if key = ''ArrowDown'' then
        (if direction w \<noteq> Up then w\<lparr>nextDirection := Down\<rparr> else w)
      else if key = ''ArrowLeft'' then
        (if direction w \<noteq> Right then w\<lparr>nextDirection := Left\<rparr> else w)
      else if key = ''ArrowRight'' then
        (if direction w \<noteq> Left then w\<lparr>nextDirection := Right\<rparr> else w)
      else w)"

text \<open>
  \<open>placeApple\<close>: each round of the loop draws two random numbers, scaled by the width
  and the height of the canvas in cells and floored, and the loop ends with the first
  cell that is not on the snake. The loop has no bound, so the model is a
  partial function: \<open>None\<close> means that the loop never ends.
\<close>

partial_function (option) placeApple :: "SnakeGame \<Rightarrow> SnakeGame option" where
  "placeApple w =
     (let x = randomFloor w (drawn w) (of_nat (width (canvas w)) / of_int (gridSize CONFIG));
          y = randomFloor w (drawn w + 1) (of_nat (height (canvas w)) / of_int (gridSize CONFIG));
          w1 = w\<lparr>drawn := drawn w + 2\<rparr>;
          onSnake = list_ex (\<lambda>segment. px segment = x \<and> py segment = y) (snake w1)
      in if \<not> onSnake then Some (w1\<lparr>apple := Point x y\<rparr>) else placeApple w1)"

definition checkSelfCollision :: "SnakeGame \<Rightarrow> point \<Rightarrow> bool" where
  "checkSelfCollision w head =
     list_ex (\<lambda>segment. px segment = px head \<and> py segment = py head) (snake w)"

definition increaseDifficulty :: "SnakeGame \<Rightarrow> SnakeGame" where
  "increaseDifficulty w =
     (if speed w > minSpeed CONFIG then w\<lparr>speed := speed w - speedDecrement CONFIG\<rparr> else w)"

text \<open>The \<open>switch\<close> of \<open>update\<close> that moves the copied head one
  cell.\<close>

fun moveHead :: "direction \<Rightarrow> point \<Rightarrow> point" where
  "moveHead Up h = Point (px h) (py h - 1)"
| "moveHead Down h = Point (px h) (py h + 1)"
| "moveHead Left h = Point (px h - 1) (py h)"
| "moveHead Right h = Point (px h + 1) (py h)"

text \<open>The condition of the first \<open>if\<close> of \<open>update\<close>: the four wall tests, then the
  self-collision test.\<close>

definition collision :: "SnakeGame \<Rightarrow> point \<Rightarrow> bool" where
  "collision w head =
     (px head < 0 \<or>
      of_int (px head) \<ge> (of_nat (width (canvas w)) :: rat) / of_int (gridSize CONFIG) \<or>
      py head < 0 \<or>
      of_int (py head) \<ge> (of_nat (height (canvas w)) :: rat) / of_int (gridSize CONFIG) \<or>
      checkSelfCollision w head)"

text \<open>
  \<open>gameLoop\<close>, \<open>update\<close>, \<open>handleGameOver\<close> and \<open>resetGame\<close> call each other:
  \<open>gameLoop\<close> calls \<open>update\<close>, which on a collision calls \<open>handleGameOver\<close>, which
  calls \<open>resetGame\<close>, which calls \<open>gameLoop\<close> again before it returns. They are one
  partial function over the name of the method; \<open>None\<close> means that the call never
  returns (the apple loop never ends, or the calls nest without end).
\<close>

text \<open>
  \<open>update\<close> either calls \<open>handleGameOver\<close> and returns what is left when that call
  returns, or finishes by itself. The model of its body says which, and with which
  game \<open>handleGameOver\<close> is called; in \<open>run\<close> below the call is then made.

  An empty snake makes \<open>this.snake[0]\<close> undefined: the copied head has no
  coordinates, every comparison with it is false, it is put in front and popped again,
  so only the direction changes.
\<close>

datatype step = CallsHandleGameOver SnakeGame | Finishes "SnakeGame option"

definition update :: "SnakeGame \<Rightarrow> step" where
  "update w =
     (let w1 = w\<lparr>direction := nextDirection w\<rparr> in
      case snake w1 of
        [] \<Rightarrow> Finishes (Some w1)
      | s0 # _ \<Rightarrow>
          let head = moveHead (direction w1) s0 in
          if collision w1 head then CallsHandleGameOver w1
          else
            let w2 = w1\<lparr>snake := head # snake w1\<rparr> in
            if px head = px (apple w2) \<and> py head = py (apple w2) then
              Finishes
                (Option.bind (placeApple (w2\<lparr>score := score w2 + 1\<rparr>))
                   (\<lambda>w3. Some (increaseDifficulty w3)))
            else Finishes (Some (w2\<lparr>snake := butlast (snake w2)\<rparr>)))"

datatype routine = GameLoop | Update | HandleGameOver | ResetGame

partial_function (option) run :: "routine \<Rightarrow> SnakeGame \<Rightarrow> SnakeGame option" where
  "run m w =
     (case m of
        ResetGame \<Rightarrow>
          Option.bind
            (placeApple (w\<lparr>snake := [Point 3 1], direction := Right, nextDirection := Right,
                           score := 0, speed := initialSpeed CONFIG\<rparr>))
            (\<lambda>w1. let w2 = w1\<lparr>isPaused := False\<rparr>;
                       w3 = (case gameLoopTimeout w2 of
                               None \<Rightarrow> w2
                             | Some h \<Rightarrow> if h \<noteq> 0 then clearTimeout h w2 else w2)
                   in run GameLoop w3)
      | Update \<Rightarrow>
          (case update w of
             CallsHandleGameOver w1 \<Rightarrow> run HandleGameOver w1
           | Finishes r \<Rightarrow> r)
      | HandleGameOver \<Rightarrow>
          (let w1 = (if score w > highScore w then
                       (w\<lparr>highScore := score w\<rparr>)
                         \<lparr>localStorage := (localStorage w)(''snakeHighScore'' \<mapsto> toString (score w))\<rparr>
                     else w);
               w2 = alert (''Game Over! Score: '' @ toString (score w1) @ [CHR 0x0A] @
                           ''High Score: '' @ toString (highScore w1)) w1
           in run ResetGame w2)
      | GameLoop \<Rightarrow>
          Option.bind (run Update w)
            (\<lambda>w1. case setTimeout (speed w1) w1 of
                     (h, w2) \<Rightarrow> Some (w2\<lparr>gameLoopTimeout := Some h\<rparr>)))"

text \<open>
  The browser runs the callback of a pending timer once, after its delay: the timer
  leaves the pending list and \<open>gameLoop\<close> runs. A handle that is not pending (it
  already ran, or it was cleared) does nothing.
\<close>

definition fire :: "nat \<Rightarrow> SnakeGame \<Rightarrow> SnakeGame option" where
  "fire h w =
     (if h \<in> set (map fst (timers w))
      then run GameLoop (w\<lparr>timers := filter (\<lambda>t. fst t \<noteq> h) (timers w)\<rparr>)
      else Some w)"

text \<open>What happens to a running game: a timer fires or a key goes down.\<close>

datatype event = Timeout nat | KeyDown string

fun dispatch :: "event \<Rightarrow> SnakeGame \<Rightarrow> SnakeGame option" where
  "dispatch (Timeout h) w = fire h w"
| "dispatch (KeyDown key) w = Some (keydown key w)"

fun dispatchAll :: "event list \<Rightarrow> SnakeGame \<Rightarrow> SnakeGame option" where
  "dispatchAll [] w = Some w"
| "dispatchAll (e # es) w = Option.bind (dispatch e w) (dispatchAll es)"

section \<open>Notions used to state the properties\<close>

text \<open>The direction committed by \<open>update\<close> is its first assignment.\<close>

definition commit :: "SnakeGame \<Rightarrow> SnakeGame" where
  "commit w = w\<lparr>direction := nextDirection w\<rparr>"

text \<open>The tick that starts in \<open>w\<close> takes the collision branch of
  \<open>update\<close>.\<close>

definition gameOverTick :: "SnakeGame \<Rightarrow> bool" where
  "gameOverTick w =
     (case snake w of
        [] \<Rightarrow> False
      | s0 # _ \<Rightarrow> collision (commit w) (moveHead (nextDirection w) s0))"

text \<open>The exact opposite of a direction, and the key that requests a direction.\<close>

fun opposite :: "direction \<Rightarrow> direction" where
  "opposite Up = Down"
| "opposite Down = Up"
| "opposite Left = Right"
| "opposite Right = Left"

fun arrowKey :: "direction \<Rightarrow> string" where
  "arrowKey Up = ''ArrowUp''"
| "arrowKey Down = ''ArrowDown''"
| "arrowKey Left = ''ArrowLeft''"
| "arrowKey Right = ''ArrowRight''"

text \<open>The cell drawn in round \<open>k\<close> of the loop of \<open>placeApple\<close>
  started in \<open>w\<close>
  (rounds count from 0).\<close>

definition drawnCell :: "SnakeGame \<Rightarrow> nat \<Rightarrow> point" where
  "drawnCell w k =
     Point
       (randomFloor w (drawn w + 2 * k) (of_nat (width (canvas w)) / of_int (gridSize CONFIG)))
       (randomFloor w (drawn w + 2 * k + 1)
          (of_nat (height (canvas w)) / of_int (gridSize CONFIG)))"

text \<open>The speeds a session can reach from \<open>initialSpeed\<close> in steps of
  \<open>speedDecrement\<close> without passing \<open>minSpeed\<close>.\<close>

definition sessionSpeed :: "int \<Rightarrow> bool" where
  "sessionSpeed v =
     (minSpeed CONFIG \<le> v \<and> v \<le> initialSpeed CONFIG \<and>
      (initialSpeed CONFIG - v) mod speedDecrement CONFIG = 0)"

text \<open>
  Pieces of the methods, named so that the properties can speak of them: the five
  assignments at the start of \<open>resetGame\<close>, its \<open>clearTimeout\<close> statement, the
  last statement of \<open>gameLoop\<close>, and the part of \<open>handleGameOver\<close> before the
  reset.
\<close>

definition resetFields :: "SnakeGame \<Rightarrow> SnakeGame" where
  "resetFields w =
     w\<lparr>snake := [Point 3 1], direction := Right, nextDirection := Right,
       score := 0, speed := initialSpeed CONFIG\<rparr>"

definition cancelTimer :: "SnakeGame \<Rightarrow> SnakeGame" where
  "cancelTimer w =
     (case gameLoopTimeout w of
        None \<Rightarrow> w
      | Some h \<Rightarrow> if h \<noteq> 0 then clearTimeout h w else w)"

definition armTimer :: "SnakeGame \<Rightarrow> SnakeGame" where
  "armTimer w = (case setTimeout (speed w) w of (h, w2) \<Rightarrow> w2\<lparr>gameLoopTimeout := Some h\<rparr>)"

definition noteGameOver :: "SnakeGame \<Rightarrow> SnakeGame" where
  "noteGameOver w =
     (let w1 = (if score w > highScore w then
                  (w\<lparr>highScore := score w\<rparr>)
                    \<lparr>localStorage := (localStorage w)(''snakeHighScore'' \<mapsto> toString (score w))\<rparr>
                else w)
      in alert (''Game Over! Score: '' @ toString (score w1) @ [CHR 0x0A] @
                ''High Score: '' @ toString (highScore w1)) w1)"

text \<open>The first move of a new session, one cell to the right of (3, 1), already hits a
  wall: the canvas is at most four cells wide or one cell high.\<close>

definition startBlocked :: "SnakeGame \<Rightarrow> bool" where
  "startBlocked w = collision (w\<lparr>snake := [Point 3 1]\<rparr>) (Point 4 1)"

section \<open>Sample games\<close>

text \<open>
  A game on a canvas of 400 by 400 pixels, where both factors are 20. Every call of
  \<open>Math.random()\<close> gives 0.5, and \<open>Math.floor(0.5 * 20)\<close> is 10: every apple lands on
  cell (10, 10).
\<close>

definition sampleGame :: "point list \<Rightarrow> direction \<Rightarrow> point \<Rightarrow> SnakeGame" where
  "sampleGame body dir app =
     \<lparr>canvas = \<lparr>width = 400, height = 400\<rparr>, snake = body, apple = app,
      direction = dir, nextDirection = dir, score = 7, highScore = 5, speed = 165,
      gameLoopTimeout = Some 1, isPaused = False, localStorage = Map.empty, timers = [],
      nextHandle = 2, randomFloor = (\<lambda>n f. 10), drawn = 0, alerts = []\<rparr>"

text \<open>
  The snake of the start position on that canvas, with the apple elsewhere, and the
  same game after one tick, after two keys and a second tick, and after \<open>resetGame\<close>.
\<close>

definition plainGame :: SnakeGame where
  "plainGame = sampleGame [Point 3 1] Right (Point 5 5)"

definition plainMoved :: SnakeGame where
  "plainMoved =
     plainGame\<lparr>snake := [Point 4 1], timers := [(2, 165)], nextHandle := 3,
               gameLoopTimeout := Some 2\<rparr>"

definition plainTurned :: SnakeGame where
  "plainTurned =
     plainGame\<lparr>snake := [Point 4 0], direction := Up, nextDirection := Up,
               timers := [(2, 165), (3, 165)], nextHandle := 4, gameLoopTimeout := Some 3\<rparr>"

definition plainReset :: SnakeGame where
  "plainReset =
     plainGame\<lparr>snake := [Point 4 1], apple := Point 10 10, score := 0, speed := 200,
               timers := [(2, 200)], nextHandle := 3, gameLoopTimeout := Some 2, drawn := 2\<rparr>"

text \<open>
  The same game with a high score of 5 in \<open>localStorage\<close>, before and after
  \<open>handleGameOver\<close>; and with a score below the high score.
\<close>

definition savedGame :: SnakeGame where
  "savedGame = plainGame\<lparr>localStorage := [''snakeHighScore'' \<mapsto> ''5'']\<rparr>"

definition savedOver :: SnakeGame where
  "savedOver =
     plainReset\<lparr>highScore := 7, localStorage := [''snakeHighScore'' \<mapsto> ''7''],
                alerts := [''Game Over! Score: 7'' @ [CHR 0x0A] @ ''High Score: 7'']\<rparr>"

definition modestGame :: SnakeGame where
  "modestGame =
     plainGame\<lparr>score := 3, highScore := 7, localStorage := [''snakeHighScore'' \<mapsto> ''7'']\<rparr>"

definition modestOver :: SnakeGame where
  "modestOver =
     plainReset\<lparr>highScore := 7, localStorage := [''snakeHighScore'' \<mapsto> ''7''],
                alerts := [''Game Over! Score: 3'' @ [CHR 0x0A] @ ''High Score: 7'']\<rparr>"

text \<open>A snake one cell to the left of the apple, before and after the tick.\<close>

definition eatingGame :: SnakeGame where
  "eatingGame = sampleGame [Point 4 1] Right (Point 5 1)"

definition eatingFed :: SnakeGame where
  "eatingFed =
     eatingGame\<lparr>snake := [Point 5 1, Point 4 1], score := 8, speed := 160, drawn := 2,
                apple := Point 10 10\<rparr>"

text \<open>
  A game whose first two random numbers are 0.25 and 0.0625, so that the first cell
  drawn is (5, 1) (\<open>0.25 * 20\<close> is 5 and \<open>0.0625 * 20\<close> is 1.25), two cells to the right
  of the start position; the game after the next reset, and after the tick that
  follows it.
\<close>

definition luckyGame :: SnakeGame where
  "luckyGame =
     (sampleGame [Point 9 9] Up (Point 5 5))
       \<lparr>randomFloor := (\<lambda>n f. if n = 0 then 5 else if n = 1 then 1 else 10)\<rparr>"

definition luckyStart :: SnakeGame where
  "luckyStart =
     luckyGame\<lparr>snake := [Point 4 1], apple := Point 5 1, direction := Right,
               nextDirection := Right, score := 0, speed := 200, timers := [(2, 200)],
               nextHandle := 3, gameLoopTimeout := Some 2, drawn := 2\<rparr>"

definition luckyFed :: SnakeGame where
  "luckyFed =
     luckyStart\<lparr>snake := [Point 5 1, Point 4 1], apple := Point 10 10, score := 1,
                speed := 195, timers := [(3, 195)], nextHandle := 4,
                gameLoopTimeout := Some 3, drawn := 4\<rparr>"

text \<open>
  A game whose first two random numbers are 0.21875 and 0.0625, so that the first cell
  drawn is (4, 1) (\<open>0.21875 * 20\<close> is 4.375), the cell the first tick after a reset
  enters; and the game after the next reset, in which that tick has eaten the apple.
\<close>

definition greedyGame :: SnakeGame where
  "greedyGame =
     (sampleGame [Point 9 9, Point 9 10] Up (Point 5 5))
       \<lparr>randomFloor := (\<lambda>n f. if n = 0 then 4 else if n = 1 then 1 else 10)\<rparr>"

definition greedyStart :: SnakeGame where
  "greedyStart =
     greedyGame\<lparr>snake := [Point 4 1, Point 3 1], apple := Point 10 10, direction := Right,
                nextDirection := Right, score := 1, speed := 195, timers := [(2, 195)],
                nextHandle := 3, gameLoopTimeout := Some 2, drawn := 4\<rparr>"

text \<open>A snake of three segments with the apple in front of its head, before and
  after the tick; and the same snake turning down with the apple elsewhere.\<close>

definition longGame :: SnakeGame where
  "longGame = sampleGame [Point 5 1, Point 4 1, Point 3 1] Right (Point 6 1)"

definition longFed :: SnakeGame where
  "longFed =
     longGame\<lparr>snake := [Point 6 1, Point 5 1, Point 4 1, Point 3 1], apple := Point 10 10,
              score := 8, speed := 160, timers := [(2, 160)], nextHandle := 3,
              gameLoopTimeout := Some 2, drawn := 2\<rparr>"

definition bentGame :: SnakeGame where
  "bentGame =
     (sampleGame [Point 5 1, Point 4 1, Point 3 1] Right (Point 5 5))\<lparr>nextDirection := Down\<rparr>"

definition bentMoved :: SnakeGame where
  "bentMoved =
     bentGame\<lparr>snake := [Point 5 2, Point 5 1, Point 4 1], direction := Down,
              timers := [(2, 165)], nextHandle := 3, gameLoopTimeout := Some 2\<rparr>"

text \<open>
  A snake on (10, 10) and (10, 11). The first two random numbers are 0.5, so the first
  cell drawn is on the snake; the next two are 0.375 and 0.1875, which give the cell
  (7, 3).
\<close>

definition crowdedGame :: SnakeGame where
  "crowdedGame =
     (sampleGame [Point 10 10, Point 10 11] Up (Point 5 5))
       \<lparr>randomFloor := (\<lambda>n f. if n < 2 then 10 else if n = 2 then 7 else 3)\<rparr>"

definition crowdedApple :: SnakeGame where
  "crowdedApple = crowdedGame\<lparr>drawn := 4, apple := Point 7 3\<rparr>"

text \<open>A snake going up along the left wall and about to turn left into it.\<close>

definition wallTurner :: SnakeGame where
  "wallTurner = (sampleGame [Point 0 1, Point 0 2] Up (Point 5 5))\<lparr>nextDirection := Left\<rparr>"

text \<open>
  The game as the constructor leaves it just before its call of \<open>resetGame\<close>, in a
  browser whose \<open>localStorage\<close> is empty and whose first timer handle is 1; and the
  same game fifteen ticks after that call when no key was pressed: the snake is one
  cell from the right wall and heads for it, and one timer, handle 16, is pending.
\<close>

definition pageLoad :: SnakeGame where
  "pageLoad =
     \<lparr>canvas = \<lparr>width = 400, height = 400\<rparr>, snake = [], apple = Point 0 0,
      direction = Right, nextDirection = Right, score = 0, highScore = 0,
      speed = initialSpeed CONFIG, gameLoopTimeout = None, isPaused = False,
      localStorage = Map.empty, timers = [], nextHandle = 1, randomFloor = (\<lambda>n f. 10),
      drawn = 0, alerts = []\<rparr>"

definition beforeWall :: SnakeGame where
  "beforeWall =
     pageLoad\<lparr>snake := [Point 19 1], apple := Point 10 10, timers := [(16, 200)],
              nextHandle := 17, gameLoopTimeout := Some 16, drawn := 2\<rparr>"

text \<open>A snake of four segments curled in a square, its head about to turn into the
  cell of its own tail.\<close>

definition tailChaser :: SnakeGame where
  "tailChaser =
     (sampleGame [Point 1 1, Point 1 2, Point 2 2, Point 2 1] Up (Point 5 5))
       \<lparr>nextDirection := Right\<rparr>"

section \<open>The four methods, one equation each\<close>

lemma run_ResetGame:
  "run ResetGame w =
     Option.bind
       (placeApple (w\<lparr>snake := [Point 3 1], direction := Right, nextDirection := Right,
                      score := 0, speed := initialSpeed CONFIG\<rparr>))
       (\<lambda>w1. let w2 = w1\<lparr>isPaused := False\<rparr>;
                  w3 = (case gameLoopTimeout w2 of
                          None \<Rightarrow> w2
                        | Some h \<Rightarrow> if h \<noteq> 0 then clearTimeout h w2 else w2)
              in run GameLoop w3)"
  by (subst run.simps) simp

lemma run_GameLoop:
  "run GameLoop w =
     Option.bind (run Update w)
       (\<lambda>w1. case setTimeout (speed w1) w1 of
                (h, w2) \<Rightarrow> Some (w2\<lparr>gameLoopTimeout := Some h\<rparr>))"
  by (subst run.simps) simp

lemma run_HandleGameOver:
  "run HandleGameOver w =
     (let w1 = (if score w > highScore w then
                  (w\<lparr>highScore := score w\<rparr>)
                    \<lparr>localStorage := (localStorage w)(''snakeHighScore'' \<mapsto> toString (score w))\<rparr>
                else w);
          w2 = alert (''Game Over! Score: '' @ toString (score w1) @ [CHR 0x0A] @
                      ''High Score: '' @ toString (highScore w1)) w1
      in run ResetGame w2)"
  by (subst run.simps) simp

lemma run_Update:
  "run Update w =
     (let w1 = w\<lparr>direction := nextDirection w\<rparr> in
      case snake w1 of
        [] \<Rightarrow> Some w1
      | s0 # _ \<Rightarrow>
          let head = moveHead (direction w1) s0 in
          if collision w1 head then run HandleGameOver w1
          else
            let w2 = w1\<lparr>snake := head # snake w1\<rparr> in
            if px head = px (apple w2) \<and> py head = py (apple w2) then
              Option.bind (placeApple (w2\<lparr>score := score w2 + 1\<rparr>))
                (\<lambda>w3. Some (increaseDifficulty w3))
            else Some (w2\<lparr>snake := butlast (snake w2)\<rparr>))"
  by (subst run.simps) (simp add: update_def Let_def split: list.splits)

lemma reset_eq:
  "run ResetGame w =
     Option.bind (placeApple (resetFields w))
       (\<lambda>w1. run GameLoop (cancelTimer (w1\<lparr>isPaused := False\<rparr>)))"
  by (simp add: run_ResetGame resetFields_def cancelTimer_def Let_def)

lemma gameLoop_eq: "run GameLoop w = map_option armTimer (run Update w)"
  by (simp add: run_GameLoop armTimer_def setTimeout_def map_conv_bind_option comp_def)

lemma handleGameOver_eq: "run HandleGameOver w = run ResetGame (noteGameOver w)"
  by (simp add: run_HandleGameOver noteGameOver_def Let_def)

lemma update_gameOver: "gameOverTick w \<Longrightarrow> run Update w = run HandleGameOver (commit w)"
  by (auto simp: gameOverTick_def run_Update commit_def Let_def split: list.splits)

text \<open>The equations that evaluate a tick of a given game.\<close>

lemmas evaluation = sampleGame_def fire_def gameLoop_eq handleGameOver_eq reset_eq run_Update
  placeApple.simps collision_def checkSelfCollision_def commit_def CONFIG_def armTimer_def
  setTimeout_def cancelTimer_def clearTimeout_def noteGameOver_def alert_def resetFields_def
  Let_def gameOverTick_def keydown_def increaseDifficulty_def toString_def digits.simps
  digitChar_def

section \<open>Points, collisions and fields left alone\<close>

lemma list_ex_point: "list_ex (\<lambda>segment. px segment = px p \<and> py segment = py p) ps \<longleftrightarrow> p \<in> set ps"
  by (induction ps) (auto simp: point.expand)

lemma list_ex_Point: "list_ex (\<lambda>segment. px segment = a \<and> py segment = b) ps \<longleftrightarrow> Point a b \<in> set ps"
  using list_ex_point [of "Point a b" ps] by simp

lemma point_eq_iff: "(px a = px b \<and> py a = py b) \<longleftrightarrow> a = b"
  by (auto simp: point.expand)

lemma point_eq_Point: "(px p = a \<and> py p = b) \<longleftrightarrow> p = Point a b"
  by (cases p) auto

lemma collision_self: "h \<in> set (snake w) \<Longrightarrow> collision w h"
  by (simp add: collision_def checkSelfCollision_def list_ex_point)

lemma collision_cong:
  "canvas a = canvas b \<Longrightarrow> snake a = snake b \<Longrightarrow> collision a h = collision b h"
  by (simp add: collision_def checkSelfCollision_def)

lemma startBlocked_cong: "canvas a = canvas b \<Longrightarrow> startBlocked a = startBlocked b"
  by (simp add: startBlocked_def collision_def checkSelfCollision_def)

lemma gameOverTick_cong:
  "canvas a = canvas b \<Longrightarrow> snake a = snake b \<Longrightarrow> nextDirection a = nextDirection b \<Longrightarrow>
   gameOverTick a = gameOverTick b"
  using collision_cong [of "commit a" "commit b"]
  by (simp add: gameOverTick_def commit_def split: list.splits)

lemma cancelTimer_fields [simp]:
  "canvas (cancelTimer w) = canvas w" "snake (cancelTimer w) = snake w"
  "apple (cancelTimer w) = apple w"
  "direction (cancelTimer w) = direction w" "nextDirection (cancelTimer w) = nextDirection w"
  "score (cancelTimer w) = score w" "highScore (cancelTimer w) = highScore w"
  "speed (cancelTimer w) = speed w" "localStorage (cancelTimer w) = localStorage w"
  "alerts (cancelTimer w) = alerts w"
  by (simp_all add: cancelTimer_def clearTimeout_def split: option.splits)

lemma armTimer_fields [simp]:
  "canvas (armTimer w) = canvas w" "snake (armTimer w) = snake w"
  "apple (armTimer w) = apple w"
  "direction (armTimer w) = direction w" "nextDirection (armTimer w) = nextDirection w"
  "score (armTimer w) = score w" "highScore (armTimer w) = highScore w"
  "speed (armTimer w) = speed w" "localStorage (armTimer w) = localStorage w"
  "alerts (armTimer w) = alerts w"
  "timers (armTimer w) = timers w @ [(nextHandle w, speed w)]"
  by (simp_all add: armTimer_def setTimeout_def)

lemma noteGameOver_fields [simp]:
  "canvas (noteGameOver w) = canvas w" "snake (noteGameOver w) = snake w"
  "apple (noteGameOver w) = apple w"
  "highScore (noteGameOver w) = (if score w > highScore w then score w else highScore w)"
  "localStorage (noteGameOver w) =
     (if score w > highScore w
      then (localStorage w)(''snakeHighScore'' \<mapsto> toString (score w)) else localStorage w)"
  "timers (noteGameOver w) = timers w"
  by (simp_all add: noteGameOver_def alert_def Let_def)

lemma increaseDifficulty_fields [simp]:
  "canvas (increaseDifficulty w) = canvas w" "snake (increaseDifficulty w) = snake w"
  "apple (increaseDifficulty w) = apple w"
  "direction (increaseDifficulty w) = direction w"
  "nextDirection (increaseDifficulty w) = nextDirection w"
  "score (increaseDifficulty w) = score w" "highScore (increaseDifficulty w) = highScore w"
  "localStorage (increaseDifficulty w) = localStorage w"
  "alerts (increaseDifficulty w) = alerts w" "timers (increaseDifficulty w) = timers w"
  by (simp_all add: increaseDifficulty_def)

lemma resetFields_fields [simp]:
  "snake (resetFields w) = [Point 3 1]" "direction (resetFields w) = Right"
  "nextDirection (resetFields w) = Right" "score (resetFields w) = 0"
  "speed (resetFields w) = initialSpeed CONFIG" "canvas (resetFields w) = canvas w"
  "highScore (resetFields w) = highScore w" "localStorage (resetFields w) = localStorage w"
  "timers (resetFields w) = timers w" "alerts (resetFields w) = alerts w"
  by (simp_all add: resetFields_def)

lemma keydown_fields [simp]:
  "canvas (keydown key w) = canvas w" "snake (keydown key w) = snake w"
  "apple (keydown key w) = apple w" "score (keydown key w) = score w"
  "highScore (keydown key w) = highScore w" "speed (keydown key w) = speed w"
  "direction (keydown key w) = direction w"
  by (simp_all add: keydown_def)

section \<open>Apple placement\<close>

lemma placeApple_frame:
  assumes "placeApple w = Some w'"
  shows "apple w' \<notin> set (snake w) \<and> (\<exists>d. w' = w\<lparr>drawn := d, apple := apple w'\<rparr>)"
  using assms
proof (induction w w' rule: placeApple.raw_induct [rotated 1, consumes 1, case_names step])
  case (step f w w')
  show ?case
  proof (cases "list_ex (\<lambda>segment.
           px segment =
             randomFloor w (drawn w) (of_nat (width (canvas w)) / of_int (gridSize CONFIG)) \<and>
           py segment =
             randomFloor w (drawn w + 1) (of_nat (height (canvas w)) / of_int (gridSize CONFIG)))
           (snake w)")
    case True
    with step(2) have "f (w\<lparr>drawn := drawn w + 2\<rparr>) = Some w'"
      by (simp add: Let_def)
    from step(1) [OF this] show ?thesis by auto
  next
    case False
    with step(2) show ?thesis
      by (auto simp: Let_def list_ex_Point)
  qed
qed

lemma placeApple_fields:
  assumes "placeApple w = Some w'"
  shows "canvas w' = canvas w" "snake w' = snake w" "direction w' = direction w"
    "nextDirection w' = nextDirection w" "score w' = score w" "highScore w' = highScore w"
    "speed w' = speed w" "gameLoopTimeout w' = gameLoopTimeout w"
    "localStorage w' = localStorage w" "timers w' = timers w" "nextHandle w' = nextHandle w"
    "alerts w' = alerts w" "randomFloor w' = randomFloor w" "apple w' \<notin> set (snake w)"
proof -
  from placeApple_frame [OF assms] obtain d where
    f: "w' = w\<lparr>drawn := d, apple := apple w'\<rparr>" and a: "apple w' \<notin> set (snake w)"
    by blast
  show "apple w' \<notin> set (snake w)" by (rule a)
  show "canvas w' = canvas w" by (subst f) simp
  show "snake w' = snake w" by (subst f) simp
  show "direction w' = direction w" by (subst f) simp
  show "nextDirection w' = nextDirection w" by (subst f) simp
  show "score w' = score w" by (subst f) simp
  show "highScore w' = highScore w" by (subst f) simp
  show "speed w' = speed w" by (subst f) simp
  show "gameLoopTimeout w' = gameLoopTimeout w" by (subst f) simp
  show "localStorage w' = localStorage w" by (subst f) simp
  show "timers w' = timers w" by (subst f) simp
  show "nextHandle w' = nextHandle w" by (subst f) simp
  show "alerts w' = alerts w" by (subst f) simp
  show "randomFloor w' = randomFloor w" by (subst f) simp
qed

lemma fresh_fields:
  assumes "placeApple (resetFields w) = Some w1"
  shows "snake (cancelTimer (w1\<lparr>isPaused := False\<rparr>)) = [Point 3 1]"
    "apple (cancelTimer (w1\<lparr>isPaused := False\<rparr>)) \<noteq> Point 3 1"
    "direction (cancelTimer (w1\<lparr>isPaused := False\<rparr>)) = Right"
    "nextDirection (cancelTimer (w1\<lparr>isPaused := False\<rparr>)) = Right"
    "score (cancelTimer (w1\<lparr>isPaused := False\<rparr>)) = 0"
    "speed (cancelTimer (w1\<lparr>isPaused := False\<rparr>)) = initialSpeed CONFIG"
    "highScore (cancelTimer (w1\<lparr>isPaused := False\<rparr>)) = highScore w"
    "localStorage (cancelTimer (w1\<lparr>isPaused := False\<rparr>)) = localStorage w"
  using placeApple_fields [OF assms] by simp_all

lemma placeApple_returns:
  "drawnCell w k \<notin> set (snake w) \<Longrightarrow> \<exists>w'. placeApple w = Some w'"
proof (induction k arbitrary: w)
  case 0
  then show ?case
    by (subst placeApple.simps) (simp add: drawnCell_def Let_def list_ex_Point)
next
  case (Suc k)
  show ?case
  proof (cases "drawnCell w 0 \<in> set (snake w)")
    case True
    have "drawnCell (w\<lparr>drawn := drawn w + 2\<rparr>) k = drawnCell w (Suc k)"
      by (simp add: drawnCell_def)
    with Suc.prems have "drawnCell (w\<lparr>drawn := drawn w + 2\<rparr>) k \<notin> set (snake (w\<lparr>drawn := drawn w + 2\<rparr>))"
      by simp
    from Suc.IH [OF this] obtain w' where "placeApple (w\<lparr>drawn := drawn w + 2\<rparr>) = Some w'" ..
    moreover from True have "placeApple w = placeApple (w\<lparr>drawn := drawn w + 2\<rparr>)"
      by (subst placeApple.simps) (simp add: drawnCell_def Let_def list_ex_Point)
    ultimately show ?thesis by simp
  next
    case False
    then show ?thesis
      by (subst placeApple.simps) (simp add: drawnCell_def Let_def list_ex_Point)
  qed
qed

lemma drawnCell_cong:
  "randomFloor a = randomFloor b \<Longrightarrow> drawn a = drawn b \<Longrightarrow> canvas a = canvas b \<Longrightarrow>
   drawnCell a k = drawnCell b k"
  by (simp add: drawnCell_def)

lemma drawnCell_later:
  "randomFloor a = randomFloor b \<Longrightarrow> drawn a = drawn b + 2 * n \<Longrightarrow> canvas a = canvas b \<Longrightarrow>
   drawnCell a k = drawnCell b (n + k)"
  by (simp add: drawnCell_def algebra_simps)

text \<open>The loop of \<open>placeApple\<close> ends in the first round that draws a cell off the
  snake, with that cell as the apple.\<close>

lemma placeApple_first:
  assumes "drawnCell w j \<notin> set (snake w)" and "\<forall>i<j. drawnCell w i \<in> set (snake w)"
  shows "placeApple w = Some (w\<lparr>drawn := drawn w + 2 * (j + 1), apple := drawnCell w j\<rparr>)"
  using assms
proof (induction j arbitrary: w)
  case 0
  then show ?case
    by (subst placeApple.simps) (simp add: drawnCell_def Let_def list_ex_Point)
next
  case (Suc j)
  let ?w1 = "w\<lparr>drawn := drawn w + 2\<rparr>"
  have c: "drawnCell ?w1 i = drawnCell w (Suc i)" for i
    using drawnCell_later [of ?w1 w 1 i] by simp
  have sn: "snake ?w1 = snake w" by simp
  from Suc.prems have "drawnCell w 0 \<in> set (snake w)" by simp
  then have 1: "placeApple w = placeApple ?w1"
    by (subst placeApple.simps) (simp add: drawnCell_def Let_def list_ex_Point)
  have 2: "drawnCell ?w1 j \<notin> set (snake ?w1)"
    unfolding c sn using Suc.prems(1) .
  have 3: "\<forall>i<j. drawnCell ?w1 i \<in> set (snake ?w1)"
    unfolding c sn using Suc.prems(2) by auto
  from Suc.IH [OF 2 3] have "placeApple ?w1 =
      Some (?w1\<lparr>drawn := drawn ?w1 + 2 * (j + 1), apple := drawnCell w (Suc j)\<rparr>)"
    unfolding c .
  with 1 show ?case by simp
qed

section \<open>One tick without a collision\<close>

lemma update_step_cases [consumes 2, case_names empty move eat]:
  assumes "\<not> gameOverTick w" and "run Update w = Some w'"
  obtains
    (empty) "snake w = []" "w' = commit w"
  | (move) s0 rest where "snake w = s0 # rest"
      "moveHead (nextDirection w) s0 \<notin> set (snake w)"
      "moveHead (nextDirection w) s0 \<noteq> apple w"
      "w' = w\<lparr>direction := nextDirection w,
              snake := moveHead (nextDirection w) s0 # butlast (snake w)\<rparr>"
  | (eat) s0 rest w3 where "snake w = s0 # rest"
      "moveHead (nextDirection w) s0 \<notin> set (snake w)"
      "moveHead (nextDirection w) s0 = apple w"
      "placeApple (w\<lparr>direction := nextDirection w,
                     snake := moveHead (nextDirection w) s0 # snake w,
                     score := score w + 1\<rparr>) = Some w3"
      "w' = increaseDifficulty w3"
proof (cases "snake w")
  case Nil
  with assms(2) have "w' = commit w"
    by (simp add: run_Update commit_def Let_def)
  with Nil show ?thesis by (rule empty)
next
  case (Cons s0 rest)
  let ?h = "moveHead (nextDirection w) s0"
  from assms(1) Cons have nc: "\<not> collision (commit w) ?h"
    by (simp add: gameOverTick_def)
  then have ns: "?h \<notin> set (snake w)"
    using collision_self [of ?h "commit w"] by (auto simp: commit_def)
  show ?thesis
  proof (cases "?h = apple w")
    case True
    with assms(2) Cons nc obtain w3 where
      "placeApple (w\<lparr>direction := nextDirection w, snake := ?h # snake w,
                     score := score w + 1\<rparr>) = Some w3" "w' = increaseDifficulty w3"
      by (auto simp: run_Update commit_def Let_def bind_eq_Some_conv point_eq_iff)
    with Cons ns True show ?thesis by (rule eat)
  next
    case False
    with assms(2) Cons nc have
      "w' = w\<lparr>direction := nextDirection w, snake := ?h # butlast (snake w)\<rparr>"
      by (simp add: run_Update commit_def Let_def point_eq_iff)
    with Cons ns False show ?thesis by (rule move)
  qed
qed

section \<open>Reset and the tick nested in it\<close>

lemma blocked_start_never_returns:
  assumes "run m w = Some w'"
  shows "startBlocked w \<longrightarrow>
         (m = ResetGame \<or> m = HandleGameOver \<or> (snake w = [Point 3 1] \<and> nextDirection w = Right))
         \<longrightarrow> False"
  using assms
proof (induction m w w' rule: run.raw_induct [rotated 1, consumes 1, case_names step])
  case (step f m w w')
  show ?case
  proof (intro impI)
    assume b: "startBlocked w"
      and c: "m = ResetGame \<or> m = HandleGameOver \<or> (snake w = [Point 3 1] \<and> nextDirection w = Right)"
    show False
    proof (cases m)
      case GameLoop
      with step(2) obtain w1 where "f Update w = Some w1"
        by (auto simp: bind_eq_Some_conv)
      from step(1) [OF this] b c GameLoop show False by simp
    next
      case Update
      with c have s: "snake w = [Point 3 1]" "nextDirection w = Right" by simp_all
      have "collision (w\<lparr>direction := nextDirection w\<rparr>) (Point 4 1)"
        using b s collision_cong [of "w\<lparr>direction := nextDirection w\<rparr>" "w\<lparr>snake := [Point 3 1]\<rparr>"]
        by (simp add: startBlocked_def)
      with step(2) Update s have "f HandleGameOver (w\<lparr>direction := nextDirection w\<rparr>) = Some w'"
        by (simp add: update_def Let_def)
      from step(1) [OF this] b startBlocked_cong [of "w\<lparr>direction := nextDirection w\<rparr>" w]
      show False by simp
    next
      case HandleGameOver
      with step(2) have "f ResetGame (noteGameOver w) = Some w'"
        by (simp add: noteGameOver_def Let_def)
      from step(1) [OF this] b startBlocked_cong [of "noteGameOver w" w]
      show False by simp
    next
      case ResetGame
      with step(2) obtain w1 where p: "placeApple (resetFields w) = Some w1"
        and g: "f GameLoop (cancelTimer (w1\<lparr>isPaused := False\<rparr>)) = Some w'"
        by (auto simp: bind_eq_Some_conv resetFields_def cancelTimer_def Let_def)
      have "startBlocked (cancelTimer (w1\<lparr>isPaused := False\<rparr>))"
        using b startBlocked_cong [of "cancelTimer (w1\<lparr>isPaused := False\<rparr>)" w]
          placeApple_fields(1) [OF p] by (simp add: resetFields_def)
      moreover have "snake (cancelTimer (w1\<lparr>isPaused := False\<rparr>)) = [Point 3 1]"
        "nextDirection (cancelTimer (w1\<lparr>isPaused := False\<rparr>)) = Right"
        using placeApple_fields(2,4) [OF p] by (simp_all add: resetFields_def)
      ultimately show False using step(1) [OF g] by simp
    qed
  qed
qed

lemma reset_returns:
  assumes "run ResetGame w = Some w'"
  obtains w1 w2 where "placeApple (resetFields w) = Some w1"
    "\<not> gameOverTick (cancelTimer (w1\<lparr>isPaused := False\<rparr>))"
    "run Update (cancelTimer (w1\<lparr>isPaused := False\<rparr>)) = Some w2"
    "w' = armTimer w2"
proof -
  from assms obtain w1 where p: "placeApple (resetFields w) = Some w1"
    and g: "run GameLoop (cancelTimer (w1\<lparr>isPaused := False\<rparr>)) = Some w'"
    by (auto simp: reset_eq bind_eq_Some_conv)
  let ?w3 = "cancelTimer (w1\<lparr>isPaused := False\<rparr>)"
  from g obtain w2 where u: "run Update ?w3 = Some w2" and w': "w' = armTimer w2"
    by (auto simp: gameLoop_eq)
  have s: "snake ?w3 = [Point 3 1]" "nextDirection ?w3 = Right"
    using placeApple_fields(2,4) [OF p] by (simp_all add: resetFields_def)
  have "\<not> gameOverTick ?w3"
  proof
    assume "gameOverTick ?w3"
    with s have "collision (commit ?w3) (Point 4 1)"
      by (simp add: gameOverTick_def)
    then have "startBlocked ?w3"
      using s collision_cong [of "commit ?w3" "?w3\<lparr>snake := [Point 3 1]\<rparr>"]
      by (simp add: startBlocked_def commit_def)
    with blocked_start_never_returns [OF g] s show False by simp
  qed
  from that [OF p this u w'] show ?thesis .
qed

text \<open>
  \<open>resetGame\<close> and \<open>handleGameOver\<close> do return when the first move of the new session
  is free and some round draws a cell other than (3, 1) and (4, 1): the apple is placed
  by that round at the latest, and if the tick nested in the reset eats it, the
  second placement ends by that round as well.
\<close>

lemma reset_completes:
  assumes "\<not> startBlocked w" and "drawnCell w k \<notin> {Point 3 1, Point 4 1}"
  shows "\<exists>w'. run ResetGame w = Some w'"
proof -
  let ?w0 = "resetFields w"
  have d0: "drawnCell ?w0 i = drawnCell w i" for i
    by (rule drawnCell_cong) (simp_all add: resetFields_def)
  define j where "j = (LEAST i. drawnCell ?w0 i \<notin> set (snake ?w0))"
  from assms(2) have fk: "drawnCell ?w0 k \<notin> set (snake ?w0)"
    by (simp add: d0)
  then have fj: "drawnCell ?w0 j \<notin> set (snake ?w0)"
    unfolding j_def by (rule LeastI)
  have jk: "j \<le> k"
    unfolding j_def using fk by (rule Least_le)
  have "\<forall>i<j. drawnCell ?w0 i \<in> set (snake ?w0)"
    unfolding j_def using not_less_Least by blast
  with fj have p: "placeApple ?w0 =
      Some (?w0\<lparr>drawn := drawn ?w0 + 2 * (j + 1), apple := drawnCell ?w0 j\<rparr>)"
    by (rule placeApple_first)
  let ?w1 = "?w0\<lparr>drawn := drawn ?w0 + 2 * (j + 1), apple := drawnCell ?w0 j\<rparr>"
  let ?w3 = "cancelTimer (?w1\<lparr>isPaused := False\<rparr>)"
  have r: "run ResetGame w = map_option armTimer (run Update ?w3)"
    by (simp add: reset_eq p gameLoop_eq)
  have s: "snake ?w3 = [Point 3 1]" "nextDirection ?w3 = Right" "apple ?w3 = drawnCell w j"
    by (simp_all add: d0)
  have nc: "\<not> collision (?w3\<lparr>direction := nextDirection ?w3\<rparr>) (Point 4 1)"
    using assms(1) collision_cong [of "?w3\<lparr>direction := nextDirection ?w3\<rparr>" "w\<lparr>snake := [Point 3 1]\<rparr>"]
    by (simp add: startBlocked_def)
  have "\<exists>v. run Update ?w3 = Some v"
  proof (cases "drawnCell w j = Point 4 1")
    case True
    with assms(2) jk have lt: "j < k" by (cases "j = k") auto
    let ?w2 = "?w3\<lparr>direction := nextDirection ?w3, snake := [Point 4 1, Point 3 1],
                    score := score ?w3 + 1\<rparr>"
    have u: "run Update ?w3 = map_option increaseDifficulty (placeApple ?w2)"
      using s nc True
      by (simp add: run_Update Let_def map_conv_bind_option comp_def point_eq_Point
          del: resetFields_fields)
    have "drawnCell ?w2 (k - j - 1) = drawnCell ?w0 ((j + 1) + (k - j - 1))"
      by (rule drawnCell_later)
        (simp_all add: cancelTimer_def clearTimeout_def split: option.splits)
    with lt have "drawnCell ?w2 (k - j - 1) = drawnCell w k" by (simp add: d0)
    with assms(2) have "drawnCell ?w2 (k - j - 1) \<notin> set (snake ?w2)" by simp
    from placeApple_returns [OF this] u show ?thesis by auto
  next
    case False
    with s nc show ?thesis
      by (simp add: run_Update Let_def point_eq_Point del: resetFields_fields)
  qed
  with r show ?thesis by auto
qed

lemma gameOver_completes:
  assumes "\<not> startBlocked w" and "drawnCell w k \<notin> {Point 3 1, Point 4 1}"
  shows "\<exists>w'. run HandleGameOver w = Some w'"
proof -
  have "\<not> startBlocked (noteGameOver w)"
    using assms(1) startBlocked_cong [of "noteGameOver w" w] by simp
  moreover have "drawnCell (noteGameOver w) k = drawnCell w k"
    by (rule drawnCell_cong) (simp_all add: noteGameOver_def alert_def Let_def)
  ultimately show ?thesis
    using assms(2) reset_completes [of "noteGameOver w" k] by (simp add: handleGameOver_eq)
qed

section \<open>A rule for properties kept by every tick\<close>

lemma tick_invariant:
  assumes step: "\<And>w w'. Pre w \<Longrightarrow> \<not> gameOverTick w \<Longrightarrow> run Update w = Some w' \<Longrightarrow> Post w'"
    and fresh: "\<And>w w1. placeApple (resetFields w) = Some w1 \<Longrightarrow>
                  Pre (cancelTimer (w1\<lparr>isPaused := False\<rparr>))"
    and arm: "\<And>w. Post w \<Longrightarrow> Post (armTimer w)"
  shows "(run ResetGame w = Some w' \<longrightarrow> Post w') \<and>
         (run HandleGameOver w = Some w' \<longrightarrow> Post w') \<and>
         (Pre w \<and> run GameLoop w = Some w' \<longrightarrow> Post w')"
proof -
  have r: "Post w'" if "run ResetGame w = Some w'" for w w'
  proof -
    from that obtain w1 w2 where "placeApple (resetFields w) = Some w1"
      "\<not> gameOverTick (cancelTimer (w1\<lparr>isPaused := False\<rparr>))"
      "run Update (cancelTimer (w1\<lparr>isPaused := False\<rparr>)) = Some w2"
      "w' = armTimer w2"
      by (rule reset_returns)
    with step fresh arm show ?thesis by blast
  qed
  have h: "Post w'" if "run HandleGameOver w = Some w'" for w w'
    using that r by (simp add: handleGameOver_eq)
  have t: "Post w'" if "Pre w" and "run GameLoop w = Some w'"
  proof -
    from that(2) obtain w1 where u: "run Update w = Some w1" and w': "w' = armTimer w1"
      by (auto simp: gameLoop_eq)
    have "Post w1"
    proof (cases "gameOverTick w")
      case True
      with u h show ?thesis by (simp add: update_gameOver)
    next
      case False
      with step that(1) u show ?thesis by blast
    qed
    with arm w' show ?thesis by simp
  qed
  from r h t show ?thesis by blast
qed

lemma dispatchAll_invariant:
  assumes "Inv w1" and "\<And>e w w'. Inv w \<Longrightarrow> dispatch e w = Some w' \<Longrightarrow> Inv w'"
    and "dispatchAll es w1 = Some w"
  shows "Inv w"
  using assms(1,3)
proof (induction es arbitrary: w1)
  case Nil
  then show ?case by simp
next
  case (Cons e es)
  from Cons.prems(2) obtain w2 where "dispatch e w1 = Some w2" "dispatchAll es w2 = Some w"
    by (auto simp: bind_eq_Some_conv)
  with Cons.IH Cons.prems(1) assms(2) show ?case by blast
qed

section \<open>Properties\<close>

subsection \<open>C1: self-collision is tested against the body before the tail moves\<close>

text \<open>
  Claim C1. On a tick, the cell the head is about to enter (the head moved one cell in
  the committed direction) is compared with the whole body as it stands when the tick
  starts, the last segment included: when that cell is any segment of the body, the
  self-collision test holds, so does the condition of the first \<open>if\<close> of \<open>update\<close>,
  and \<open>update\<close> does what \<open>handleGameOver\<close> does. No tail is removed before the test.
\<close>

theorem self_collision_counts_whole_body:
  assumes "snake w = s0 # rest"
    and "moveHead (nextDirection w) s0 \<in> set (snake w)"
  shows "checkSelfCollision (commit w) (moveHead (nextDirection w) s0) \<and>
         collision (commit w) (moveHead (nextDirection w) s0) \<and>
         run Update w = run HandleGameOver (commit w)"
  using assms
  by (simp add: run_Update commit_def collision_def checkSelfCollision_def list_ex_point Let_def)

text \<open>The snake curled in a square turns into the cell of its last segment.\<close>

theorem self_collision_counts_whole_body_witness:
  "snake tailChaser = Point 1 1 # [Point 1 2, Point 2 2, Point 2 1] \<and>
   moveHead (nextDirection tailChaser) (Point 1 1) = last (snake tailChaser) \<and>
   moveHead (nextDirection tailChaser) (Point 1 1) \<in> set (snake tailChaser) \<and>
   checkSelfCollision (commit tailChaser) (moveHead (nextDirection tailChaser) (Point 1 1)) \<and>
   collision (commit tailChaser) (moveHead (nextDirection tailChaser) (Point 1 1)) \<and>
   run Update tailChaser = run HandleGameOver (commit tailChaser)"
  using self_collision_counts_whole_body [of tailChaser "Point 1 1" "[Point 1 2, Point 2 2, Point 2 1]"]
  by (simp add: tailChaser_def sampleGame_def)

subsection \<open>C2: a game-over tick leaves two timers pending\<close>

text \<open>
  Claim C2 (a reset on the game-over path cancels the pending tick, so at most one
  timer is pending at any time) fails on a tick that ends the session. The page loads
  and no key is pressed: after fifteen ticks the snake is one cell from the right wall
  and exactly one timer, handle 16, is pending. It fires, and the snake hits the wall.
  \<open>resetGame\<close> clears handle 16, which has fired and is no longer pending, and calls
  \<open>gameLoop\<close>, which arms handle 17; back in the first \<open>gameLoop\<close>, after \<open>update\<close>
  has returned, handle 18 is armed as well. Two timers are pending, and only handle 18
  is remembered in \<open>gameLoopTimeout\<close>.
\<close>

theorem game_over_tick_leaves_two_timers:
  "Option.bind (run ResetGame pageLoad)
     (dispatchAll [Timeout 1, Timeout 2, Timeout 3, Timeout 4, Timeout 5, Timeout 6,
        Timeout 7, Timeout 8, Timeout 9, Timeout 10, Timeout 11, Timeout 12, Timeout 13,
        Timeout 14, Timeout 15]) = Some beforeWall \<and>
   timers beforeWall = [(16, 200)] \<and>
   map_option timers (fire 16 beforeWall) = Some [(17, 200), (18, 200)] \<and>
   map_option gameLoopTimeout (fire 16 beforeWall) = Some (Some 18)"
  by (simp add: beforeWall_def pageLoad_def evaluation)

text \<open>The same holds of every tick that ends a session: it returns with two more
  timers pending, armed one after the other, and remembers only the second.\<close>

lemma game_over_tick_arms_twice:
  assumes "gameOverTick w" and "run GameLoop w = Some w'"
  shows "\<exists>ts h v v'. timers w' = ts @ [(h, v), (h + 1, v')] \<and> gameLoopTimeout w' = Some (h + 1)"
proof -
  from assms(2) obtain w1 where u: "run Update w = Some w1" and w': "w' = armTimer w1"
    by (auto simp: gameLoop_eq)
  from u assms(1) have "run ResetGame (noteGameOver (commit w)) = Some w1"
    by (simp add: update_gameOver handleGameOver_eq)
  then obtain w2 w3 where "w1 = armTimer w3"
    by (rule reset_returns)
  with w' have "timers w' = timers w3 @ [(nextHandle w3, speed w3), (nextHandle w3 + 1, speed w3)]"
    "gameLoopTimeout w' = Some (nextHandle w3 + 1)"
    by (simp_all add: armTimer_def setTimeout_def)
  then show ?thesis by blast
qed

subsection \<open>C3: the speed steps down to the minimum and stays there\<close>

lemma sessionSpeed_decrement:
  assumes "sessionSpeed v"
  shows "(if v > minSpeed CONFIG then v - speedDecrement CONFIG else v) =
           max (minSpeed CONFIG) (v - speedDecrement CONFIG)"
    and "sessionSpeed (if v > minSpeed CONFIG then v - speedDecrement CONFIG else v)"
proof -
  from assms have r: "50 \<le> v" "v \<le> 200" "(200 - v) mod 5 = 0"
    by (simp_all add: sessionSpeed_def CONFIG_def)
  then have c: "v = 50 \<or> 55 \<le> v" by presburger
  then show "(if v > minSpeed CONFIG then v - speedDecrement CONFIG else v) =
           max (minSpeed CONFIG) (v - speedDecrement CONFIG)"
    by (auto simp: CONFIG_def)
  from r(3) have "(200 - (v - 5)) mod 5 = 0" by presburger
  with r c show "sessionSpeed (if v > minSpeed CONFIG then v - speedDecrement CONFIG else v)"
    by (auto simp: sessionSpeed_def CONFIG_def)
qed

lemma speed_step:
  assumes "\<not> gameOverTick w" and "run Update w = Some w'"
  shows "(score w' = score w \<and> speed w' = speed w) \<or>
         (score w' = score w + 1 \<and>
          speed w' = (if speed w > minSpeed CONFIG then speed w - speedDecrement CONFIG
                      else speed w))"
  using assms
proof (cases rule: update_step_cases)
  case empty
  then show ?thesis by (simp add: commit_def)
next
  case (move s0 rest)
  then show ?thesis by simp
next
  case (eat s0 rest w3)
  with placeApple_fields(5,7) [OF eat(4)] show ?thesis
    by (simp add: increaseDifficulty_def)
qed

lemma sessionSpeed_invariant:
  "(run ResetGame w = Some w' \<longrightarrow> sessionSpeed (speed w')) \<and>
   (run HandleGameOver w = Some w' \<longrightarrow> sessionSpeed (speed w')) \<and>
   (sessionSpeed (speed w) \<and> run GameLoop w = Some w' \<longrightarrow> sessionSpeed (speed w'))"
proof (rule tick_invariant [where Pre = "\<lambda>w. sessionSpeed (speed w)"
      and Post = "\<lambda>w. sessionSpeed (speed w)"])
  fix v v' :: SnakeGame
  assume "sessionSpeed (speed v)" "\<not> gameOverTick v" "run Update v = Some v'"
  with speed_step [of v v'] sessionSpeed_decrement(2) [of "speed v"]
  show "sessionSpeed (speed v')" by auto
next
  fix v v1 :: SnakeGame
  assume "placeApple (resetFields v) = Some v1"
  from fresh_fields(6) [OF this]
  show "sessionSpeed (speed (cancelTimer (v1\<lparr>isPaused := False\<rparr>)))"
    by (simp add: sessionSpeed_def CONFIG_def)
next
  fix v :: SnakeGame
  assume "sessionSpeed (speed v)"
  then show "sessionSpeed (speed (armTimer v))" by simp
qed

lemma dispatch_sessionSpeed:
  assumes "sessionSpeed (speed w)" and "dispatch e w = Some w'"
  shows "sessionSpeed (speed w')"
proof (cases e)
  case (Timeout h)
  with assms sessionSpeed_invariant
    [of "w\<lparr>timers := filter (\<lambda>t. fst t \<noteq> h) (timers w)\<rparr>" w']
  show ?thesis by (auto simp: fire_def split: if_splits)
next
  case (KeyDown key)
  with assms show ?thesis by auto
qed

lemma dispatch_speed:
  assumes "\<not> gameOverTick w" and "dispatch e w = Some w'"
  shows "(score w' = score w \<and> speed w' = speed w) \<or>
         (score w' = score w + 1 \<and>
          speed w' = (if speed w > minSpeed CONFIG then speed w - speedDecrement CONFIG
                      else speed w))"
proof (cases e)
  case (Timeout h)
  let ?v = "w\<lparr>timers := filter (\<lambda>t. fst t \<noteq> h) (timers w)\<rparr>"
  show ?thesis
  proof (cases "h \<in> set (map fst (timers w))")
    case True
    with assms(2) Timeout obtain w1 where u: "run Update ?v = Some w1" and w': "w' = armTimer w1"
      by (auto simp: fire_def gameLoop_eq)
    have "\<not> gameOverTick ?v"
      using assms(1) gameOverTick_cong [of ?v w] by simp
    from speed_step [OF this u] w' show ?thesis by (auto split: if_splits)
  next
    case False
    with assms(2) Timeout show ?thesis by (simp add: fire_def)
  qed
next
  case (KeyDown key)
  with assms show ?thesis by auto
qed

text \<open>
  Claim C3. In every state reached from a reset by any sequence of timer and key events,
  \<open>increaseDifficulty\<close> maps the speed \<open>v\<close> to \<open>max minSpeed (v - speedDecrement)\<close>, and
  the speed lies between \<open>minSpeed\<close> and \<open>initialSpeed\<close>. An event that does not end
  the session never raises the speed nor takes it below \<open>minSpeed\<close>, and when it
  changes the score (an apple was eaten) the new speed is that maximum.
\<close>

theorem speed_steps_down_to_minimum:
  assumes "run ResetGame w0 = Some w1" and "dispatchAll es w1 = Some w"
  shows "speed (increaseDifficulty w) = max (minSpeed CONFIG) (speed w - speedDecrement CONFIG) \<and>
         minSpeed CONFIG \<le> speed w \<and> speed w \<le> initialSpeed CONFIG \<and>
         (\<forall>e w'. dispatch e w = Some w' \<and> \<not> gameOverTick w \<longrightarrow>
            speed w' \<le> speed w \<and> minSpeed CONFIG \<le> speed w' \<and>
            (score w' \<noteq> score w \<longrightarrow>
               speed w' = max (minSpeed CONFIG) (speed w - speedDecrement CONFIG)))"
proof -
  have "sessionSpeed (speed w1)"
    using assms(1) sessionSpeed_invariant [of w0 w1] by simp
  then have s: "sessionSpeed (speed w)"
    using dispatch_sessionSpeed assms(2)
    by (rule dispatchAll_invariant [where Inv = "\<lambda>w. sessionSpeed (speed w)"])
  have a: "speed (increaseDifficulty w) = max (minSpeed CONFIG) (speed w - speedDecrement CONFIG)"
    using sessionSpeed_decrement(1) [OF s] by (auto simp: increaseDifficulty_def split: if_splits)
  have b: "minSpeed CONFIG \<le> speed w \<and> speed w \<le> initialSpeed CONFIG"
    using s by (simp add: sessionSpeed_def)
  have c: "speed w' \<le> speed w \<and> minSpeed CONFIG \<le> speed w' \<and>
            (score w' \<noteq> score w \<longrightarrow>
               speed w' = max (minSpeed CONFIG) (speed w - speedDecrement CONFIG))"
    if "dispatch e w = Some w'" "\<not> gameOverTick w" for e w'
  proof -
    from dispatch_sessionSpeed [OF s that(1)] have "minSpeed CONFIG \<le> speed w'"
      by (simp add: sessionSpeed_def)
    moreover have "0 \<le> speedDecrement CONFIG" by (simp add: CONFIG_def)
    ultimately show ?thesis
      using dispatch_speed [OF that(2,1)] sessionSpeed_decrement(1) [OF s] b
      by (auto split: if_splits)
  qed
  from a b c show ?thesis by blast
qed

text \<open>After a reset, a dropped request for the opposite direction and then the tick that
  eats the apple: the speed goes from 200 to 195.\<close>

theorem speed_steps_down_to_minimum_witness:
  "run ResetGame luckyGame = Some luckyStart \<and>
   dispatchAll [KeyDown ''ArrowLeft''] luckyStart = Some luckyStart \<and>
   dispatch (Timeout 2) luckyStart = Some luckyFed \<and> \<not> gameOverTick luckyStart \<and>
   speed luckyStart = 200 \<and> score luckyFed \<noteq> score luckyStart \<and>
   speed (increaseDifficulty luckyStart) = 195 \<and> speed luckyFed = 195 \<and>
   speed luckyFed \<le> speed luckyStart \<and> minSpeed CONFIG \<le> speed luckyFed"
proof -
  have r: "run ResetGame luckyGame = Some luckyStart"
    by (simp add: luckyStart_def luckyGame_def evaluation)
  have k: "dispatchAll [KeyDown ''ArrowLeft''] luckyStart = Some luckyStart"
    by (simp add: luckyStart_def luckyGame_def evaluation)
  have t: "dispatch (Timeout 2) luckyStart = Some luckyFed"
    by (simp add: luckyFed_def luckyStart_def luckyGame_def evaluation)
  have n: "\<not> gameOverTick luckyStart"
    by (simp add: luckyStart_def luckyGame_def evaluation)
  have s: "speed luckyStart = 200" "score luckyFed \<noteq> score luckyStart"
    by (simp_all add: luckyFed_def luckyStart_def)
  have m: "max (minSpeed CONFIG) (speed luckyStart - speedDecrement CONFIG) = 195"
    by (simp add: s CONFIG_def)
  from speed_steps_down_to_minimum [OF r k] t n s(2)
  have "speed (increaseDifficulty luckyStart) =
          max (minSpeed CONFIG) (speed luckyStart - speedDecrement CONFIG) \<and>
        speed luckyFed = max (minSpeed CONFIG) (speed luckyStart - speedDecrement CONFIG) \<and>
        speed luckyFed \<le> speed luckyStart \<and> minSpeed CONFIG \<le> speed luckyFed"
    by blast
  with r k t n s m show ?thesis by simp
qed

subsection \<open>C4: a request for the opposite direction is dropped\<close>

lemma fold_keydown_direction [simp]: "direction (fold keydown ks w) = direction w"
  by (induction ks arbitrary: w) simp_all

lemma keydown_arrow:
  "nextDirection (keydown (arrowKey d) w) =
     (if d = opposite (direction w) then nextDirection w else d)"
  by (cases d; cases "direction w") (simp_all add: keydown_def)

lemma keydown_legal:
  "nextDirection w \<noteq> opposite (direction w) \<Longrightarrow>
   nextDirection (keydown key w) \<noteq> opposite (direction w)"
  by (cases "direction w") (auto simp: keydown_def)

lemma fold_keydown_legal:
  "nextDirection w \<noteq> opposite (direction w) \<Longrightarrow>
   nextDirection (fold keydown ks w) \<noteq> opposite (direction w)"
proof (induction ks arbitrary: w)
  case Nil
  then show ?case by simp
next
  case (Cons k ks)
  from Cons.IH [of "keydown k w"] keydown_legal [OF Cons.prems, of k]
  show ?case by simp
qed

lemma fold_keydown_last:
  "nextDirection (fold keydown (map arrowKey ds) w) =
     last (nextDirection w # filter (\<lambda>d. d \<noteq> opposite (direction w)) ds)"
proof (induction ds arbitrary: w)
  case Nil
  then show ?case by simp
next
  case (Cons d ds)
  from Cons.IH [of "keydown (arrowKey d) w"] show ?case
    by (simp add: keydown_arrow)
qed

lemma opposite_neq [simp]: "opposite d \<noteq> d" "d \<noteq> opposite d"
  by (cases d; simp)+

lemma tick_commits:
  "(run ResetGame w = Some w' \<longrightarrow> direction w' = nextDirection w') \<and>
   (run HandleGameOver w = Some w' \<longrightarrow> direction w' = nextDirection w') \<and>
   (True \<and> run GameLoop w = Some w' \<longrightarrow> direction w' = nextDirection w')"
proof (rule tick_invariant [where Pre = "\<lambda>w. True"
      and Post = "\<lambda>w. direction w = nextDirection w"])
  fix v v' :: SnakeGame
  assume "\<not> gameOverTick v" "run Update v = Some v'"
  then show "direction v' = nextDirection v'"
  proof (cases rule: update_step_cases)
    case empty
    then show ?thesis by (simp add: commit_def)
  next
    case (move s0 rest)
    then show ?thesis by simp
  next
    case (eat s0 rest w3)
    with placeApple_fields(3,4) [OF eat(4)] show ?thesis by simp
  qed
next
  fix v :: SnakeGame
  assume "direction v = nextDirection v"
  then show "direction (armTimer v) = nextDirection (armTimer v)" by simp
qed simp

lemma step_direction:
  assumes "\<not> gameOverTick w" and "run GameLoop w = Some w'"
  shows "direction w' = nextDirection w"
proof -
  from assms(2) obtain w1 where u: "run Update w = Some w1" and w': "w' = armTimer w1"
    by (auto simp: gameLoop_eq)
  from assms(1) u have "direction w1 = nextDirection w"
  proof (cases rule: update_step_cases)
    case empty
    then show ?thesis by (simp add: commit_def)
  next
    case (move s0 rest)
    then show ?thesis by simp
  next
    case (eat s0 rest w3)
    with placeApple_fields(3) [OF eat(4)] show ?thesis by simp
  qed
  with w' show ?thesis by simp
qed

text \<open>
  Claim C4. Between two ticks, after any keys \<open>ks\<close>: the committed direction is
  untouched; a request for direction \<open>d\<close> is stored in \<open>nextDirection\<close> unless \<open>d\<close> is
  the opposite of the committed direction, and then \<open>nextDirection\<close> keeps its value;
  after a series of requests \<open>nextDirection\<close> holds the last one that was not the
  opposite, or its old value when there was none; so \<open>nextDirection\<close> is never the
  opposite of the committed direction, and neither is the direction the next tick
  commits.
\<close>

theorem reversal_requests_are_dropped:
  assumes "run GameLoop w0 = Some w"
  shows "direction (fold keydown ks w) = direction w \<and>
         nextDirection (keydown (arrowKey d) (fold keydown ks w)) =
           (if d = opposite (direction w) then nextDirection (fold keydown ks w) else d) \<and>
         nextDirection (fold keydown (map arrowKey ds) w) =
           last (nextDirection w # filter (\<lambda>d. d \<noteq> opposite (direction w)) ds) \<and>
         nextDirection (fold keydown ks w) \<noteq> opposite (direction w) \<and>
         direction (commit (fold keydown ks w)) \<noteq> opposite (direction w) \<and>
         (\<forall>w'. \<not> gameOverTick (fold keydown ks w) \<and> run GameLoop (fold keydown ks w) = Some w'
            \<longrightarrow> direction w' \<noteq> opposite (direction w))"
proof -
  from assms tick_commits [of w0 w] have "direction w = nextDirection w" by simp
  then have l: "nextDirection w \<noteq> opposite (direction w)" by simp
  have n: "nextDirection (fold keydown ks w) \<noteq> opposite (direction w)"
    using l by (rule fold_keydown_legal)
  have "direction w' \<noteq> opposite (direction w)"
    if "\<not> gameOverTick (fold keydown ks w)" "run GameLoop (fold keydown ks w) = Some w'" for w'
    using step_direction [OF that] n by simp
  with n show ?thesis
    using keydown_arrow [of d "fold keydown ks w"] fold_keydown_last [of ds w]
    by (simp add: commit_def)
qed

text \<open>After a tick to the right: up is accepted, left is dropped, down would replace up, and
  the next tick goes up.\<close>

theorem reversal_requests_are_dropped_witness:
  "run GameLoop plainGame = Some plainMoved \<and> direction plainMoved = Right \<and>
   direction (fold keydown [''ArrowUp'', ''ArrowLeft''] plainMoved) = Right \<and>
   nextDirection (keydown (arrowKey Left) (fold keydown [''ArrowUp''] plainMoved)) = Up \<and>
   nextDirection (keydown (arrowKey Down) (fold keydown [''ArrowUp''] plainMoved)) = Down \<and>
   nextDirection (fold keydown (map arrowKey [Down, Left, Up, Left]) plainMoved) = Up \<and>
   \<not> gameOverTick (fold keydown [''ArrowUp'', ''ArrowLeft''] plainMoved) \<and>
   run GameLoop (fold keydown [''ArrowUp'', ''ArrowLeft''] plainMoved) = Some plainTurned \<and>
   direction plainTurned \<noteq> opposite (direction plainMoved)"
proof -
  have t: "run GameLoop plainGame = Some plainMoved"
    by (simp add: plainMoved_def plainGame_def evaluation)
  have d: "direction plainMoved = Right" "nextDirection plainMoved = Right"
    by (simp_all add: plainMoved_def plainGame_def sampleGame_def)
  have u: "nextDirection (fold keydown [''ArrowUp''] plainMoved) = Up"
    by (simp add: plainMoved_def plainGame_def sampleGame_def keydown_def)
  have n: "\<not> gameOverTick (fold keydown [''ArrowUp'', ''ArrowLeft''] plainMoved)"
    by (simp add: plainMoved_def plainGame_def evaluation)
  have g: "run GameLoop (fold keydown [''ArrowUp'', ''ArrowLeft''] plainMoved) = Some plainTurned"
    by (simp add: plainTurned_def plainMoved_def plainGame_def evaluation)
  from reversal_requests_are_dropped [OF t, of "[''ArrowUp'', ''ArrowLeft'']" Left "[Down, Left, Up, Left]"]
    reversal_requests_are_dropped [OF t, of "[''ArrowUp'']" Left "[]"]
    reversal_requests_are_dropped [OF t, of "[''ArrowUp'']" Down "[]"]
    t d u n g show ?thesis by simp
qed

subsection \<open>C5: eating the apple\<close>

text \<open>
  Claim C5. On a tick without collision whose new head is on the apple, \<open>update\<close>
  puts the new head in front, adds one to the score, calls \<open>placeApple\<close> and then
  \<open>increaseDifficulty\<close>, and removes no tail; it returns exactly when \<open>placeApple\<close>
  does, which is the case as soon as some round draws a cell off the grown snake. When
  it returns, the snake is one longer, the score one higher, the apple is on
  a cell off the snake and so not where it was, and the speed is the one
  \<open>increaseDifficulty\<close> computes.
\<close>

theorem apple_tick_grows:
  assumes "snake w = s0 # rest"
    and "\<not> collision (commit w) (moveHead (nextDirection w) s0)"
    and "moveHead (nextDirection w) s0 = apple w"
  shows "run Update w =
           map_option increaseDifficulty
             (placeApple (w\<lparr>direction := nextDirection w,
                            snake := moveHead (nextDirection w) s0 # snake w,
                            score := score w + 1\<rparr>)) \<and>
         (\<forall>k. drawnCell w k \<notin> set (moveHead (nextDirection w) s0 # snake w) \<longrightarrow>
            (\<exists>w'. run Update w = Some w')) \<and>
         (\<forall>w'. run Update w = Some w' \<longrightarrow>
            snake w' = moveHead (nextDirection w) s0 # snake w \<and>
            length (snake w') = length (snake w) + 1 \<and>
            score w' = score w + 1 \<and>
            apple w' \<notin> set (snake w') \<and> apple w' \<noteq> apple w \<and>
            speed w' = (if speed w > minSpeed CONFIG then speed w - speedDecrement CONFIG else speed w))"
proof -
  let ?h = "moveHead (nextDirection w) s0"
  let ?w2 = "w\<lparr>direction := nextDirection w, snake := ?h # snake w, score := score w + 1\<rparr>"
  have eq: "run Update w = map_option increaseDifficulty (placeApple ?w2)"
    using assms by (simp add: run_Update commit_def Let_def map_conv_bind_option comp_def)
  have ret: "\<exists>w'. run Update w = Some w'" if "drawnCell w k \<notin> set (?h # snake w)" for k
  proof -
    have "drawnCell ?w2 k = drawnCell w k" by (simp add: drawnCell_def)
    with that have "drawnCell ?w2 k \<notin> set (snake ?w2)" by simp
    from placeApple_returns [OF this] eq show ?thesis by auto
  qed
  have "snake w' = ?h # snake w \<and> length (snake w') = length (snake w) + 1 \<and>
            score w' = score w + 1 \<and> apple w' \<notin> set (snake w') \<and> apple w' \<noteq> apple w \<and>
            speed w' = (if speed w > minSpeed CONFIG then speed w - speedDecrement CONFIG else speed w)"
    if "run Update w = Some w'" for w'
  proof -
    from that eq obtain w3 where p: "placeApple ?w2 = Some w3" and w': "w' = increaseDifficulty w3"
      by auto
    from placeApple_frame [OF p] obtain d where
      a: "apple w3 \<notin> set (?h # snake w)" and f: "w3 = ?w2\<lparr>drawn := d, apple := apple w3\<rparr>"
      by auto
    have s: "snake w3 = ?h # snake w" "score w3 = score w + 1" "speed w3 = speed w"
      by (subst f, simp)+
    have ia: "apple (increaseDifficulty w3) = apple w3" "snake (increaseDifficulty w3) = snake w3"
       "score (increaseDifficulty w3) = score w3"
       "speed (increaseDifficulty w3) = (if speed w3 > minSpeed CONFIG then speed w3 - speedDecrement CONFIG else speed w3)"
      by (simp_all add: increaseDifficulty_def)
    from a assms(3) have "apple w3 \<noteq> apple w" by auto
    with a s ia w' show ?thesis by simp
  qed
  with eq ret show ?thesis by blast
qed

text \<open>The snake on (4, 1) eats the apple on (5, 1).\<close>

theorem apple_tick_grows_witness:
  "snake eatingGame = Point 4 1 # [] \<and>
   \<not> collision (commit eatingGame) (moveHead (nextDirection eatingGame) (Point 4 1)) \<and>
   moveHead (nextDirection eatingGame) (Point 4 1) = apple eatingGame \<and>
   drawnCell eatingGame 0 \<notin>
     set (moveHead (nextDirection eatingGame) (Point 4 1) # snake eatingGame) \<and>
   (\<exists>w'. run Update eatingGame = Some w') \<and>
   run Update eatingGame = Some eatingFed \<and>
   snake eatingFed = moveHead (nextDirection eatingGame) (Point 4 1) # snake eatingGame \<and>
   length (snake eatingFed) = length (snake eatingGame) + 1 \<and>
   score eatingFed = score eatingGame + 1 \<and>
   apple eatingFed \<notin> set (snake eatingFed) \<and> apple eatingFed \<noteq> apple eatingGame \<and>
   speed eatingFed =
     (if speed eatingGame > minSpeed CONFIG then speed eatingGame - speedDecrement CONFIG
      else speed eatingGame) \<and>
   snake eatingFed = [Point 5 1, Point 4 1] \<and> score eatingFed = 8 \<and> speed eatingFed = 160"
proof -
  have s: "snake eatingGame = Point 4 1 # []"
    by (simp add: eatingGame_def sampleGame_def)
  have c: "\<not> collision (commit eatingGame) (moveHead (nextDirection eatingGame) (Point 4 1))"
    by (simp add: eatingGame_def evaluation)
  have a: "moveHead (nextDirection eatingGame) (Point 4 1) = apple eatingGame"
    by (simp add: eatingGame_def sampleGame_def)
  have u: "run Update eatingGame = Some eatingFed"
    by (simp add: eatingFed_def eatingGame_def evaluation)
  have v: "snake eatingFed = [Point 5 1, Point 4 1]" "score eatingFed = 8" "speed eatingFed = 160"
    by (simp_all add: eatingFed_def)
  have d: "drawnCell eatingGame 0 \<notin>
             set (moveHead (nextDirection eatingGame) (Point 4 1) # snake eatingGame)"
    by (simp add: drawnCell_def eatingGame_def sampleGame_def CONFIG_def)
  from apple_tick_grows [OF s c a] u s c a v d show ?thesis by blast
qed

subsection \<open>C6: a plain move\<close>

text \<open>
  Claim C6. On a tick without collision whose new head is not on the apple, \<open>update\<close>
  returns the game with the new head in front and the last segment removed, nothing
  else changed but the committed direction: the length and the score are the same.
\<close>

theorem plain_move_keeps_length:
  assumes "snake w = s0 # rest"
    and "\<not> collision (commit w) (moveHead (nextDirection w) s0)"
    and "moveHead (nextDirection w) s0 \<noteq> apple w"
  shows "run Update w =
           Some (w\<lparr>direction := nextDirection w,
                   snake := moveHead (nextDirection w) s0 # butlast (snake w)\<rparr>) \<and>
         length (moveHead (nextDirection w) s0 # butlast (snake w)) = length (snake w)"
  using assms by (auto simp add: run_Update commit_def Let_def point.expand)

text \<open>The snake of the start position moves one cell to the right.\<close>

theorem plain_move_keeps_length_witness:
  "snake plainGame = Point 3 1 # [] \<and>
   \<not> collision (commit plainGame) (moveHead (nextDirection plainGame) (Point 3 1)) \<and>
   moveHead (nextDirection plainGame) (Point 3 1) \<noteq> apple plainGame \<and>
   run Update plainGame = Some (plainGame\<lparr>direction := Right, snake := [Point 4 1]\<rparr>) \<and>
   length [Point 4 1] = length (snake plainGame)"
proof -
  have s: "snake plainGame = Point 3 1 # []" "nextDirection plainGame = Right"
    by (simp_all add: plainGame_def sampleGame_def)
  have c: "\<not> collision (commit plainGame) (moveHead (nextDirection plainGame) (Point 3 1))"
    by (simp add: plainGame_def evaluation)
  have a: "moveHead (nextDirection plainGame) (Point 3 1) \<noteq> apple plainGame"
    by (simp add: plainGame_def sampleGame_def)
  from plain_move_keeps_length [OF s(1) c a] s c a show ?thesis by simp
qed

subsection \<open>C7: the high score only goes up\<close>

lemma step_keeps_highScore:
  assumes "\<not> gameOverTick w" and "run Update w = Some w'"
  shows "highScore w' = highScore w \<and> localStorage w' = localStorage w"
  using assms
proof (cases rule: update_step_cases)
  case empty
  then show ?thesis by (simp add: commit_def)
next
  case (move s0 rest)
  then show ?thesis by simp
next
  case (eat s0 rest w3)
  with placeApple_fields(6,9) [OF eat(4)] show ?thesis by simp
qed

lemma reset_keeps_highScore:
  assumes "run ResetGame w = Some w'"
  shows "highScore w' = highScore w \<and> localStorage w' = localStorage w"
proof -
  from assms obtain w1 w2 where p: "placeApple (resetFields w) = Some w1"
    and n: "\<not> gameOverTick (cancelTimer (w1\<lparr>isPaused := False\<rparr>))"
    and u: "run Update (cancelTimer (w1\<lparr>isPaused := False\<rparr>)) = Some w2"
    and w': "w' = armTimer w2"
    by (rule reset_returns)
  from step_keeps_highScore [OF n u] fresh_fields(7,8) [OF p] w' show ?thesis by simp
qed

lemma gameOver_highScore:
  assumes "run HandleGameOver w = Some w'"
  shows "highScore w' = (if score w > highScore w then score w else highScore w) \<and>
         localStorage w' =
           (if score w > highScore w
            then (localStorage w)(''snakeHighScore'' \<mapsto> toString (score w))
            else localStorage w)"
  using reset_keeps_highScore [of "noteGameOver w" w'] assms
  by (simp add: handleGameOver_eq)

lemma update_highScore:
  assumes "run Update w = Some w'"
  shows "highScore w \<le> highScore w'"
proof (cases "gameOverTick w")
  case True
  with assms gameOver_highScore [of "commit w" w'] show ?thesis
    by (simp add: update_gameOver commit_def split: if_splits)
next
  case False
  with assms step_keeps_highScore [of w w'] show ?thesis by simp
qed

lemma run_store:
  assumes "run m w = Some w'"
  shows "(highScore w' = highScore w \<and> localStorage w' = localStorage w) \<or>
         (highScore w < highScore w' \<and>
          localStorage w' = (localStorage w)(''snakeHighScore'' \<mapsto> toString (highScore w')))"
proof -
  have h: "(highScore v' = highScore v \<and> localStorage v' = localStorage v) \<or>
         (highScore v < highScore v' \<and>
          localStorage v' = (localStorage v)(''snakeHighScore'' \<mapsto> toString (highScore v')))"
    if "run HandleGameOver v = Some v'" for v v'
    using gameOver_highScore [OF that] by (simp split: if_splits)
  have u: "(highScore v' = highScore v \<and> localStorage v' = localStorage v) \<or>
         (highScore v < highScore v' \<and>
          localStorage v' = (localStorage v)(''snakeHighScore'' \<mapsto> toString (highScore v')))"
    if "run Update v = Some v'" for v v'
  proof (cases "gameOverTick v")
    case True
    with that h [of "commit v" v'] show ?thesis
      by (simp add: update_gameOver commit_def)
  next
    case False
    with that step_keeps_highScore [of v v'] show ?thesis by simp
  qed
  show ?thesis
  proof (cases m)
    case GameLoop
    with assms obtain w1 where "run Update w = Some w1" "w' = armTimer w1"
      by (auto simp: gameLoop_eq)
    with u [of w w1] show ?thesis by simp
  next
    case Update
    with assms u show ?thesis by simp
  next
    case HandleGameOver
    with assms h show ?thesis by simp
  next
    case ResetGame
    with assms reset_keeps_highScore [of w w'] show ?thesis by simp
  qed
qed

text \<open>
  Claim C7. \<open>handleGameOver\<close> first sets the high score to the score and writes it to
  \<open>localStorage\<close> under \<open>snakeHighScore\<close> if the score is strictly greater, and leaves
  both alone otherwise, and then does what \<open>resetGame\<close> does; this holds whether or
  not the reset returns. It returns when the first move of the new session is free and
  some round of the apple loop draws a cell other than (3, 1) and (4, 1), and whenever
  it returns, high score and \<open>localStorage\<close> are as it set them. For every routine that
  returns, the high score has not gone down, and \<open>localStorage\<close> is either untouched,
  with the high score, or holds the text of a strictly greater high score; so if the
  stored text was that of the high score before, it is that of the high score after.
  A key changes neither.
\<close>

theorem high_score_ratchet:
  "run HandleGameOver w = run ResetGame (noteGameOver w) \<and>
   highScore (noteGameOver w) = (if score w > highScore w then score w else highScore w) \<and>
   localStorage (noteGameOver w) =
     (if score w > highScore w
      then (localStorage w)(''snakeHighScore'' \<mapsto> toString (score w))
      else localStorage w) \<and>
   (\<not> startBlocked w \<and> drawnCell w k \<notin> {Point 3 1, Point 4 1} \<longrightarrow>
      (\<exists>v. run HandleGameOver w = Some v)) \<and>
   (run HandleGameOver w = Some w' \<longrightarrow>
      highScore w' = (if score w > highScore w then score w else highScore w) \<and>
      localStorage w' =
        (if score w > highScore w
         then (localStorage w)(''snakeHighScore'' \<mapsto> toString (score w))
         else localStorage w)) \<and>
   (run m w = Some w' \<longrightarrow>
      highScore w \<le> highScore w' \<and>
      ((highScore w' = highScore w \<and> localStorage w' = localStorage w) \<or>
       (highScore w < highScore w' \<and>
        localStorage w' = (localStorage w)(''snakeHighScore'' \<mapsto> toString (highScore w')))) \<and>
      (localStorage w ''snakeHighScore'' = Some (toString (highScore w)) \<longrightarrow>
       localStorage w' ''snakeHighScore'' = Some (toString (highScore w')))) \<and>
   highScore (keydown key w) = highScore w \<and>
   localStorage (keydown key w) = localStorage w"
proof -
  have a: "run HandleGameOver w = run ResetGame (noteGameOver w)"
    by (rule handleGameOver_eq)
  have b: "highScore (noteGameOver w) = (if score w > highScore w then score w else highScore w)"
    "localStorage (noteGameOver w) =
     (if score w > highScore w
      then (localStorage w)(''snakeHighScore'' \<mapsto> toString (score w))
      else localStorage w)"
    by simp_all
  have c: "\<not> startBlocked w \<and> drawnCell w k \<notin> {Point 3 1, Point 4 1} \<longrightarrow>
      (\<exists>v. run HandleGameOver w = Some v)"
    using gameOver_completes [of w k] by blast
  have d: "run HandleGameOver w = Some w' \<longrightarrow>
      highScore w' = (if score w > highScore w then score w else highScore w) \<and>
      localStorage w' =
        (if score w > highScore w
         then (localStorage w)(''snakeHighScore'' \<mapsto> toString (score w))
         else localStorage w)"
    using gameOver_highScore [of w w'] by blast
  have e: "highScore w \<le> highScore w' \<and>
      ((highScore w' = highScore w \<and> localStorage w' = localStorage w) \<or>
       (highScore w < highScore w' \<and>
        localStorage w' = (localStorage w)(''snakeHighScore'' \<mapsto> toString (highScore w')))) \<and>
      (localStorage w ''snakeHighScore'' = Some (toString (highScore w)) \<longrightarrow>
       localStorage w' ''snakeHighScore'' = Some (toString (highScore w')))"
    if "run m w = Some w'"
    using run_store [OF that] by auto
  have f: "highScore (keydown key w) = highScore w" "localStorage (keydown key w) = localStorage w"
    by (simp_all add: keydown_def)
  from a b c d e f show ?thesis by blast
qed

text \<open>A score of 7 against a stored high score of 5, and a score of 3 against a stored
  high score of 7.\<close>

theorem high_score_ratchet_witness:
  "\<not> startBlocked savedGame \<and> drawnCell savedGame 0 \<notin> {Point 3 1, Point 4 1} \<and>
   (\<exists>v. run HandleGameOver savedGame = Some v) \<and>
   run HandleGameOver savedGame = Some savedOver \<and>
   score savedGame = 7 \<and> highScore savedGame = 5 \<and>
   localStorage savedGame ''snakeHighScore'' = Some (toString (highScore savedGame)) \<and>
   highScore savedOver = 7 \<and>
   localStorage savedOver = (localStorage savedGame)(''snakeHighScore'' \<mapsto> ''7'') \<and>
   localStorage savedOver ''snakeHighScore'' = Some (toString (highScore savedOver)) \<and>
   run HandleGameOver modestGame = Some modestOver \<and>
   score modestGame = 3 \<and> highScore modestGame = 7 \<and> highScore modestOver = 7 \<and>
   localStorage modestOver = localStorage modestGame"
proof -
  have n: "\<not> startBlocked savedGame" "drawnCell savedGame 0 \<notin> {Point 3 1, Point 4 1}"
    by (simp_all add: startBlocked_def drawnCell_def savedGame_def plainGame_def evaluation)
  have a: "run HandleGameOver savedGame = Some savedOver"
    by (simp add: savedOver_def savedGame_def plainReset_def plainGame_def evaluation)
  have b: "run HandleGameOver modestGame = Some modestOver"
    by (simp add: modestOver_def modestGame_def plainReset_def plainGame_def evaluation)
  have c: "score savedGame = 7" "highScore savedGame = 5" "score modestGame = 3"
    "highScore modestGame = 7"
    "localStorage savedGame ''snakeHighScore'' = Some (toString (highScore savedGame))"
    "toString 7 = ''7''"
    by (simp_all add: savedGame_def modestGame_def plainGame_def sampleGame_def toString_def
        digits.simps digitChar_def)
  from high_score_ratchet [of savedGame 0 savedOver HandleGameOver] n a c(5)
  have x: "(\<exists>v. run HandleGameOver savedGame = Some v) \<and>
      highScore savedOver =
        (if score savedGame > highScore savedGame then score savedGame
         else highScore savedGame) \<and>
      localStorage savedOver =
        (if score savedGame > highScore savedGame
         then (localStorage savedGame)(''snakeHighScore'' \<mapsto> toString (score savedGame))
         else localStorage savedGame) \<and>
      localStorage savedOver ''snakeHighScore'' = Some (toString (highScore savedOver))"
    by blast
  from high_score_ratchet [of modestGame 0 modestOver HandleGameOver] b
  have y: "highScore modestOver =
        (if score modestGame > highScore modestGame then score modestGame
         else highScore modestGame) \<and>
      localStorage modestOver =
        (if score modestGame > highScore modestGame
         then (localStorage modestGame)(''snakeHighScore'' \<mapsto> toString (score modestGame))
         else localStorage modestGame)"
    by blast
  from x y n a b c show ?thesis by simp
qed

subsection \<open>C8: the snake is never empty and never overlaps itself\<close>

lemma snake_step:
  assumes "snake w \<noteq> [] \<and> distinct (snake w)" and "\<not> gameOverTick w"
    and "run Update w = Some w'"
  shows "snake w' \<noteq> [] \<and> distinct (snake w')"
  using assms(2,3)
proof (cases rule: update_step_cases)
  case empty
  with assms(1) show ?thesis by simp
next
  case (move s0 rest)
  with assms(1) show ?thesis by (auto simp: distinct_butlast dest: in_set_butlastD)
next
  case (eat s0 rest w3)
  with assms(1) placeApple_fields(2) [OF eat(4)] show ?thesis by simp
qed

text \<open>
  Claim C8. \<open>resetGame\<close> starts from the single segment (3, 1), and when it returns the
  snake is not empty and has no cell twice; a tick that starts from such a snake ends
  with such a snake.
\<close>

theorem snake_nonempty_and_distinct:
  "snake (resetFields w) = [Point 3 1] \<and>
   (run ResetGame w = Some w' \<longrightarrow> snake w' \<noteq> [] \<and> distinct (snake w')) \<and>
   (snake w \<noteq> [] \<and> distinct (snake w) \<and> run GameLoop w = Some w' \<longrightarrow>
      snake w' \<noteq> [] \<and> distinct (snake w'))"
proof -
  let ?I = "\<lambda>w::SnakeGame. snake w \<noteq> [] \<and> distinct (snake w)"
  have "(run ResetGame w = Some w' \<longrightarrow> ?I w') \<and>
        (run HandleGameOver w = Some w' \<longrightarrow> ?I w') \<and>
        (?I w \<and> run GameLoop w = Some w' \<longrightarrow> ?I w')"
  proof (rule tick_invariant [where Pre = ?I and Post = ?I])
    fix v v' :: SnakeGame assume "?I v" "\<not> gameOverTick v" "run Update v = Some v'"
    then show "?I v'" by (rule snake_step)
  next
    fix v v1 :: SnakeGame assume "placeApple (resetFields v) = Some v1"
    from fresh_fields(1) [OF this] show "?I (cancelTimer (v1\<lparr>isPaused := False\<rparr>))"
      by simp
  next
    fix v :: SnakeGame assume "?I v"
    then show "?I (armTimer v)" by simp
  qed
  then show ?thesis by simp
qed

text \<open>A reset whose nested tick eats the apple and leaves two segments; a snake of
  three segments that eats and has four; the same snake turning without eating.\<close>

theorem snake_nonempty_and_distinct_witness:
  "run ResetGame greedyGame = Some greedyStart \<and>
   snake greedyStart = [Point 4 1, Point 3 1] \<and>
   snake greedyStart \<noteq> [] \<and> distinct (snake greedyStart) \<and>
   snake longGame = [Point 5 1, Point 4 1, Point 3 1] \<and>
   snake longGame \<noteq> [] \<and> distinct (snake longGame) \<and>
   run GameLoop longGame = Some longFed \<and>
   snake longFed = [Point 6 1, Point 5 1, Point 4 1, Point 3 1] \<and>
   snake longFed \<noteq> [] \<and> distinct (snake longFed) \<and>
   snake bentGame = [Point 5 1, Point 4 1, Point 3 1] \<and>
   snake bentGame \<noteq> [] \<and> distinct (snake bentGame) \<and>
   run GameLoop bentGame = Some bentMoved \<and>
   snake bentMoved = [Point 5 2, Point 5 1, Point 4 1] \<and>
   snake bentMoved \<noteq> [] \<and> distinct (snake bentMoved)"
proof -
  have r: "run ResetGame greedyGame = Some greedyStart"
    by (simp add: greedyStart_def greedyGame_def evaluation)
  have t: "run GameLoop longGame = Some longFed"
    by (simp add: longFed_def longGame_def evaluation)
  have u: "run GameLoop bentGame = Some bentMoved"
    by (simp add: bentMoved_def bentGame_def evaluation)
  have s: "snake greedyStart = [Point 4 1, Point 3 1]"
    "snake longGame = [Point 5 1, Point 4 1, Point 3 1]"
    "snake longFed = [Point 6 1, Point 5 1, Point 4 1, Point 3 1]"
    "snake bentGame = [Point 5 1, Point 4 1, Point 3 1]"
    "snake bentMoved = [Point 5 2, Point 5 1, Point 4 1]"
    by (simp_all add: greedyStart_def longGame_def longFed_def bentGame_def bentMoved_def
        sampleGame_def)
  have d: "snake longGame \<noteq> [] \<and> distinct (snake longGame)"
    "snake bentGame \<noteq> [] \<and> distinct (snake bentGame)"
    by (simp_all add: s)
  from snake_nonempty_and_distinct [of greedyGame greedyStart]
    snake_nonempty_and_distinct [of longGame longFed]
    snake_nonempty_and_distinct [of bentGame bentMoved] r t u d
  have "snake greedyStart \<noteq> [] \<and> distinct (snake greedyStart) \<and>
        snake longFed \<noteq> [] \<and> distinct (snake longFed) \<and>
        snake bentMoved \<noteq> [] \<and> distinct (snake bentMoved)"
    by blast
  with r t u s d show ?thesis by simp
qed

subsection \<open>C9: the apple is never on the snake\<close>

lemma apple_step:
  assumes "apple w \<notin> set (snake w)" and "\<not> gameOverTick w" and "run Update w = Some w'"
  shows "apple w' \<notin> set (snake w')"
  using assms(2,3)
proof (cases rule: update_step_cases)
  case empty
  then show ?thesis by (simp add: commit_def)
next
  case (move s0 rest)
  with assms(1) show ?thesis by (auto dest: in_set_butlastD)
next
  case (eat s0 rest w3)
  with placeApple_fields(2,14) [OF eat(4)] show ?thesis by simp
qed

text \<open>
  Claim C9. Whenever \<open>placeApple\<close> returns, whatever the random numbers, the apple is
  on no segment of the snake, which it leaves as it was; and it does return as soon as
  some round draws a cell off the snake. So the apple is off the snake when
  \<open>resetGame\<close> returns, and a tick that starts with the apple off the snake ends with
  the apple off the snake.
\<close>

theorem apple_never_on_snake:
  "(placeApple w = Some w' \<longrightarrow> apple w' \<notin> set (snake w) \<and> snake w' = snake w) \<and>
   (drawnCell w k \<notin> set (snake w) \<longrightarrow> (\<exists>v. placeApple w = Some v)) \<and>
   (run ResetGame w = Some w' \<longrightarrow> apple w' \<notin> set (snake w')) \<and>
   (apple w \<notin> set (snake w) \<and> run GameLoop w = Some w' \<longrightarrow> apple w' \<notin> set (snake w'))"
proof -
  let ?I = "\<lambda>w::SnakeGame. apple w \<notin> set (snake w)"
  have "(run ResetGame w = Some w' \<longrightarrow> ?I w') \<and>
        (run HandleGameOver w = Some w' \<longrightarrow> ?I w') \<and>
        (?I w \<and> run GameLoop w = Some w' \<longrightarrow> ?I w')"
  proof (rule tick_invariant [where Pre = ?I and Post = ?I])
    fix v v' :: SnakeGame assume "?I v" "\<not> gameOverTick v" "run Update v = Some v'"
    then show "?I v'" by (rule apple_step)
  next
    fix v v1 :: SnakeGame assume "placeApple (resetFields v) = Some v1"
    from fresh_fields(1,2) [OF this] show "?I (cancelTimer (v1\<lparr>isPaused := False\<rparr>))"
      by simp
  next
    fix v :: SnakeGame assume "?I v"
    then show "?I (armTimer v)" by simp
  qed
  moreover have "placeApple w = Some w' \<longrightarrow> apple w' \<notin> set (snake w) \<and> snake w' = snake w"
    using placeApple_fields(2,14) [of w w'] by blast
  moreover have "drawnCell w k \<notin> set (snake w) \<longrightarrow> (\<exists>v. placeApple w = Some v)"
    using placeApple_returns [of w k] by blast
  ultimately show ?thesis by blast
qed

text \<open>A placement whose first round draws a cell on the snake and whose second round
  draws (7, 3); the reset and the two ticks of three segments as above.\<close>

theorem apple_never_on_snake_witness:
  "placeApple crowdedGame = Some crowdedApple \<and>
   drawnCell crowdedGame 0 \<in> set (snake crowdedGame) \<and>
   apple crowdedApple = Point 7 3 \<and>
   apple crowdedApple \<notin> set (snake crowdedGame) \<and> snake crowdedApple = snake crowdedGame \<and>
   drawnCell crowdedGame 1 \<notin> set (snake crowdedGame) \<and>
   (\<exists>v. placeApple crowdedGame = Some v) \<and>
   run ResetGame greedyGame = Some greedyStart \<and>
   apple greedyStart \<notin> set (snake greedyStart) \<and>
   apple longGame \<notin> set (snake longGame) \<and> run GameLoop longGame = Some longFed \<and>
   apple longFed \<notin> set (snake longFed) \<and>
   apple bentGame \<notin> set (snake bentGame) \<and> run GameLoop bentGame = Some bentMoved \<and>
   apple bentMoved \<notin> set (snake bentMoved)"
proof -
  have p: "placeApple crowdedGame = Some crowdedApple"
    by (simp add: crowdedApple_def crowdedGame_def evaluation)
  have c: "drawnCell crowdedGame 0 \<in> set (snake crowdedGame)"
    "drawnCell crowdedGame 1 \<notin> set (snake crowdedGame)" "apple crowdedApple = Point 7 3"
    by (simp_all add: drawnCell_def crowdedApple_def crowdedGame_def sampleGame_def)
  have r: "run ResetGame greedyGame = Some greedyStart"
    by (simp add: greedyStart_def greedyGame_def evaluation)
  have t: "run GameLoop longGame = Some longFed"
    by (simp add: longFed_def longGame_def evaluation)
  have u: "run GameLoop bentGame = Some bentMoved"
    by (simp add: bentMoved_def bentGame_def evaluation)
  have a: "apple longGame \<notin> set (snake longGame)" "apple bentGame \<notin> set (snake bentGame)"
    by (simp_all add: longGame_def bentGame_def sampleGame_def)
  from apple_never_on_snake [of crowdedGame crowdedApple 1]
    apple_never_on_snake [of greedyGame greedyStart 0]
    apple_never_on_snake [of longGame longFed 0]
    apple_never_on_snake [of bentGame bentMoved 0] p c r t u a
  show ?thesis by blast
qed

subsection \<open>C10: game over sees the state the tick started with\<close>

text \<open>
  Claim C10. On a tick whose new head hits a wall or the body, \<open>update\<close> calls
  \<open>handleGameOver\<close> with the game it started with, changed in one field only:
  \<open>direction\<close> holds \<open>nextDirection\<close>. Snake, apple and score of the game handed over
  are those of the start of the tick, and \<open>update\<close> calls \<open>handleGameOver\<close> with no
  other game.
\<close>

theorem collision_branch_keeps_state:
  assumes "snake w = s0 # rest"
    and "collision (commit w) (moveHead (nextDirection w) s0)"
  shows "update w = CallsHandleGameOver (w\<lparr>direction := nextDirection w\<rparr>) \<and>
         run Update w = run HandleGameOver (w\<lparr>direction := nextDirection w\<rparr>) \<and>
         snake (w\<lparr>direction := nextDirection w\<rparr>) = snake w \<and>
         apple (w\<lparr>direction := nextDirection w\<rparr>) = apple w \<and>
         score (w\<lparr>direction := nextDirection w\<rparr>) = score w \<and>
         (\<forall>v. update w = CallsHandleGameOver v \<longrightarrow> v = w\<lparr>direction := nextDirection w\<rparr>)"
proof -
  from assms have u: "update w = CallsHandleGameOver (w\<lparr>direction := nextDirection w\<rparr>)"
    by (simp add: update_def commit_def Let_def)
  moreover from assms have "run Update w = run HandleGameOver (w\<lparr>direction := nextDirection w\<rparr>)"
    by (simp add: run_Update commit_def Let_def)
  ultimately show ?thesis by simp
qed

text \<open>A snake of two segments going up along the left wall turns left into it.\<close>

theorem collision_branch_keeps_state_witness:
  "snake wallTurner = Point 0 1 # [Point 0 2] \<and>
   collision (commit wallTurner) (moveHead (nextDirection wallTurner) (Point 0 1)) \<and>
   direction wallTurner = Up \<and>
   update wallTurner = CallsHandleGameOver (wallTurner\<lparr>direction := Left\<rparr>) \<and>
   run Update wallTurner = run HandleGameOver (wallTurner\<lparr>direction := Left\<rparr>) \<and>
   snake (wallTurner\<lparr>direction := Left\<rparr>) = [Point 0 1, Point 0 2] \<and>
   apple (wallTurner\<lparr>direction := Left\<rparr>) = Point 5 5 \<and>
   score (wallTurner\<lparr>direction := Left\<rparr>) = 7"
proof -
  have s: "snake wallTurner = Point 0 1 # [Point 0 2]" "nextDirection wallTurner = Left"
    "direction wallTurner = Up" "apple wallTurner = Point 5 5" "score wallTurner = 7"
    by (simp_all add: wallTurner_def sampleGame_def)
  have c: "collision (commit wallTurner) (moveHead (nextDirection wallTurner) (Point 0 1))"
    by (simp add: wallTurner_def sampleGame_def commit_def collision_def CONFIG_def)
  from collision_branch_keeps_state [OF s(1) c]
  have "update wallTurner = CallsHandleGameOver (wallTurner\<lparr>direction := nextDirection wallTurner\<rparr>)"
    "run Update wallTurner = run HandleGameOver (wallTurner\<lparr>direction := nextDirection wallTurner\<rparr>)"
    "snake (wallTurner\<lparr>direction := nextDirection wallTurner\<rparr>) = snake wallTurner"
    "apple (wallTurner\<lparr>direction := nextDirection wallTurner\<rparr>) = apple wallTurner"
    "score (wallTurner\<lparr>direction := nextDirection wallTurner\<rparr>) = score wallTurner"
    by blast+
  with s c show ?thesis by (simp only: list.simps)
qed

end
